theory Spec2Isabelle
  imports Main "HOL-Library.Sublist"
begin

section \<open>The Touch component: data\<close>

text \<open>
  The source is the React component \<open>Touch\<close> (the gesture recognizer). Its handlers
  \<open>startHandler\<close>, \<open>onMove\<close>, \<open>onEnd\<close> and \<open>postGestureClick\<close> mutate two refs,
  \<open>gesture.current\<close> and \<open>didSlide.current\<close>, read the clock and call the consumer's
  callbacks. The model passes the two refs (and the number of clock reads so far) as an
  explicit state, and returns, with the new state, the list of effects the handler has
  performed, in the order it performed them. The hover listeners (\<open>onEnter\<close>,
  \<open>onLeave\<close> on pointer or mouse leave) and \<open>onDragStart\<close> read and write neither ref
  and are left out. A callback of the consumer is opaque: the model records the call and
  its argument, and takes it that the callback does not re-enter the component.

  Numbers are integers (pixel coordinates, milliseconds). A field of a JavaScript object
  that may be \<open>undefined\<close> is an \<open>option\<close>; for a number, \<open>None\<close> also stands for
  \<open>NaN\<close>, which is what arithmetic on \<open>undefined\<close> gives (both are falsy and make every
  comparison false).
\<close>

text \<open>The raw input event (\<open>VKUITouchEvent\<close>): its \<open>type\<close>, its client coordinates and
  its \<open>touches\<close> list (absent on mouse events).\<close>

record vkui_event =
  etype :: string
  clientX :: int
  clientY :: int
  touches :: "(int \<times> int) list option"

text \<open>\<open>interface Gesture\<close>, as \<open>gesture.current\<close> holds it (\<open>Partial<Gesture>\<close>). The
  optional \<open>duration\<close> of the interface is never stored in the ref: it is computed for
  every dispatched event, see \<open>touch_event\<close>.\<close>

record gesture =
  startX :: "int option"
  startY :: "int option"
  startT :: "int option"
  isPressed :: "bool option"
  isY :: "bool option"
  isX :: "bool option"
  isSlideX :: "bool option"
  isSlideY :: "bool option"
  isSlide :: "bool option"
  shiftX :: "int option"
  shiftY :: "int option"
  shiftXAbs :: "int option"
  shiftYAbs :: "int option"

text \<open>The object literal \<open>{}\<close>.\<close>

definition empty_gesture :: gesture where
  "empty_gesture =
     \<lparr>startX = None, startY = None, startT = None, isPressed = None,
      isY = None, isX = None, isSlideX = None, isSlideY = None, isSlide = None,
      shiftX = None, shiftY = None, shiftXAbs = None, shiftYAbs = None\<rparr>"

text \<open>\<open>interface TouchEvent extends Gesture\<close>: what a callback receives,
  \<open>{ ...gesture.current, duration, originalEvent: e }\<close>.\<close>

record touch_event =
  snapshot :: gesture
  duration :: int
  originalEvent :: vkui_event

text \<open>The click event: all the handler asks of it is whether
  \<open>e.target.closest('a')\<close> finds a link.\<close>

record click_event =
  closest_a :: bool

text \<open>The consumer's callbacks by name. A callback is opaque code of the consumer; the
  model records that it was called, and with which event.\<close>

datatype cb =
  OnStart | OnStartX | OnStartY | OnMove | OnMoveX | OnMoveY | OnEnd | OnEndX | OnEndY

text \<open>\<open>TouchProps\<close>, after the defaults of the destructuring. A callback prop is
  \<open>True\<close> when the consumer passed one. The props \<open>onMove\<close> and \<open>onEnd\<close> are renamed
  \<open>_onMove\<close> and \<open>_onEnd\<close> by the source; here they are \<open>prop_onMove\<close> and
  \<open>prop_onEnd\<close>.\<close>

record props =
  onStart :: bool
  onStartX :: bool
  onStartY :: bool
  prop_onMove :: bool
  onMoveX :: bool
  onMoveY :: bool
  prop_onEnd :: bool
  onEndX :: bool
  onEndY :: bool
  onLeave :: bool
  onClickCapture :: bool
  slideThreshold :: int
  noSlideClick :: bool
  stopPropagation :: bool

definition default_props :: props where
  "default_props =
     \<lparr>onStart = False, onStartX = False, onStartY = False,
      prop_onMove = False, onMoveX = False, onMoveY = False,
      prop_onEnd = False, onEndX = False, onEndY = False,
      onLeave = False, onClickCapture = False,
      slideThreshold = 5, noSlideClick = False, stopPropagation = False\<rparr>"

text \<open>What the component takes from \<open>lib/touch\<close> and from the platform, which are not
  part of the sources at hand: the coordinate extraction \<open>coordX\<close>, \<open>coordY\<close>, the
  capability probe \<open>touchEnabled()\<close>, and the clock (\<open>clock n\<close> is what the \<open>n\<close>-th read
  of \<open>Date.now()\<close> or \<open>new Date()\<close> returns). They are parameters of the model.\<close>

record env =
  coordX :: "vkui_event \<Rightarrow> int"
  coordY :: "vkui_event \<Rightarrow> int"
  touchEnabled :: bool
  clock :: "nat \<Rightarrow> int"

datatype target = Document | Null

text \<open>The effects of a handler, as they appear to the outside.\<close>

datatype action =
    StopPropagation
  | PreventDefault
  | Callback cb touch_event
  | Leave vkui_event
  | ClickCapture click_event
  | Subscribe target

datatype error = TypeError

record state =
  gesture_current :: gesture
  didSlide_current :: "bool option"
  ticks :: nat

text \<open>\<open>React.useRef(false)\<close> and \<open>React.useRef({})\<close>.\<close>

definition init :: state where
  "init = \<lparr>gesture_current = empty_gesture, didSlide_current = Some False, ticks = 0\<rparr>"

text \<open>A handler returns the state it leaves, the effects it performed and the
  exception that ended it, if one did.\<close>

type_synonym outcome = "state \<times> action list \<times> error option"

section \<open>JavaScript operators\<close>

definition truthy :: "bool option \<Rightarrow> bool" where
  "truthy b = (b = Some True)"

text \<open>\<open>a && f\<close> in a list of handlers: \<open>f\<close> when \<open>a\<close> is truthy, a falsy value
  otherwise, which \<open>cb && cb(...)\<close> skips.\<close>

definition js_and :: "bool option \<Rightarrow> 'a option \<Rightarrow> 'a option" where
  "js_and a f = (if truthy a then f else None)"

definition num_sub :: "int \<Rightarrow> int option \<Rightarrow> int option" where
  "num_sub a b = (case b of None \<Rightarrow> None | Some y \<Rightarrow> Some (a - y))"

definition num_abs :: "int option \<Rightarrow> int option" where
  "num_abs a = (case a of None \<Rightarrow> None | Some x \<Rightarrow> Some \<bar>x\<bar>)"

definition num_ge :: "int option \<Rightarrow> int \<Rightarrow> bool" where
  "num_ge a b = (case a of None \<Rightarrow> False | Some x \<Rightarrow> x \<ge> b)"

definition num_gt :: "int option \<Rightarrow> int option \<Rightarrow> bool" where
  "num_gt a b = (case (a, b) of (Some x, Some y) \<Rightarrow> x > y | _ \<Rightarrow> False)"

section \<open>The handlers\<close>

text \<open>The prop behind a callback name, as a handler or a falsy value.\<close>

fun handler :: "props \<Rightarrow> cb \<Rightarrow> cb option" where
  "handler p OnStart = (if onStart p then Some OnStart else None)"
| "handler p OnStartX = (if onStartX p then Some OnStartX else None)"
| "handler p OnStartY = (if onStartY p then Some OnStartY else None)"
| "handler p OnMove = (if prop_onMove p then Some OnMove else None)"
| "handler p OnMoveX = (if onMoveX p then Some OnMoveX else None)"
| "handler p OnMoveY = (if onMoveY p then Some OnMoveY else None)"
| "handler p OnEnd = (if prop_onEnd p then Some OnEnd else None)"
| "handler p OnEndX = (if onEndX p then Some OnEndX else None)"
| "handler p OnEndY = (if onEndY p then Some OnEndY else None)"

text \<open>Statements in sequence: the second runs in the state the first leaves, unless
  the first threw.\<close>

definition and_then :: "outcome \<Rightarrow> (state \<Rightarrow> outcome) \<Rightarrow> outcome" where
  "and_then r f =
     (case r of
        (s, acts, Some x) \<Rightarrow> (s, acts, Some x)
      | (s, acts, None) \<Rightarrow> (case f s of (s', acts', err) \<Rightarrow> (s', acts @ acts', err)))"

text \<open>The body of \<open>handers.forEach\<close> in \<open>handle\<close>: an iteration reads the clock, then
  \<open>gesture.current.startT.getTime()\<close> (a \<open>TypeError\<close> when \<open>startT\<close> is undefined),
  then calls the callback if there is one.\<close>

definition handle_one :: "env \<Rightarrow> vkui_event \<Rightarrow> cb option \<Rightarrow> state \<Rightarrow> outcome" where
  "handle_one en e c s =
     (let now = clock en (ticks s);
          s1 = s\<lparr>ticks := Suc (ticks s)\<rparr>
      in case startT (gesture_current s1) of
           None \<Rightarrow> (s1, [], Some TypeError)
         | Some t0 \<Rightarrow>
             (let duration = now - t0
              in (s1,
                  (case c of
                     None \<Rightarrow> []
                   | Some f \<Rightarrow>
                       [Callback f \<lparr>snapshot = gesture_current s1, duration = duration,
                                     originalEvent = e\<rparr>]),
                  None)))"

fun handle_each :: "env \<Rightarrow> vkui_event \<Rightarrow> cb option list \<Rightarrow> state \<Rightarrow> outcome" where
  "handle_each en e [] s = (s, [], None)"
| "handle_each en e (c # cs) s = and_then (handle_one en e c s) (handle_each en e cs)"

definition handle :: "env \<Rightarrow> props \<Rightarrow> vkui_event \<Rightarrow> cb option list \<Rightarrow> state \<Rightarrow> outcome" where
  "handle en p e handers s =
     and_then (s, (if stopPropagation p then [StopPropagation] else []), None)
       (handle_each en e handers)"

text \<open>\<open>subscribe(el)\<close> adds the move, end and cancel listeners to \<open>el\<close>; the listeners
  themselves (\<open>useEventListener\<close>) are outside the sources, so the call is an effect.
  Every call of it is guarded by \<open>!touchEnabled()\<close>.\<close>

definition subscribe_unless_touch :: "env \<Rightarrow> target \<Rightarrow> state \<Rightarrow> outcome" where
  "subscribe_unless_touch en el s =
     (s, (if touchEnabled en then [] else [Subscribe el]), None)"

definition startHandler :: "env \<Rightarrow> props \<Rightarrow> vkui_event \<Rightarrow> state \<Rightarrow> outcome" where
  "startHandler en p e s =
     (let g = empty_gesture\<lparr>startX := Some (coordX en e), startY := Some (coordY en e),
                            startT := Some (clock en (ticks s)), isPressed := Some True\<rparr>;
          s1 = s\<lparr>gesture_current := g, ticks := Suc (ticks s)\<rparr>
      in and_then
           (handle en p e [handler p OnStart, handler p OnStartX, handler p OnStartY] s1)
           (subscribe_unless_touch en Document))"

text \<open>\<open>onLeave && onLeave(e)\<close> for a touch end or cancel.\<close>

definition leave_if_touch :: "props \<Rightarrow> vkui_event \<Rightarrow> state \<Rightarrow> outcome" where
  "leave_if_touch p e s =
     (s,
      (if etype e = ''touchend'' \<or> etype e = ''touchcancel''
       then (if onLeave p then [Leave e] else [])
       else []),
      None)"

definition onEnd :: "env \<Rightarrow> props \<Rightarrow> vkui_event \<Rightarrow> state \<Rightarrow> outcome" where
  "onEnd en p e s =
     (let g = gesture_current s
      in and_then
           (if truthy (isPressed g)
            then handle en p e
                   [handler p OnEnd, js_and (isSlideY g) (handler p OnEndY),
                    js_and (isSlideX g) (handler p OnEndX)] s
            else (s, [], None))
           (\<lambda>s1.
              and_then
                (s1\<lparr>didSlide_current := isSlide g, gesture_current := empty_gesture\<rparr>,
                 [], None)
                (\<lambda>s2. and_then (leave_if_touch p e s2) (subscribe_unless_touch en Null))))"

text \<open>\<open>!!e.touches && e.touches.length > 1\<close>\<close>

definition multitouch :: "vkui_event \<Rightarrow> bool" where
  "multitouch e = (case touches e of None \<Rightarrow> False | Some ts \<Rightarrow> length ts > 1)"

definition onMove :: "env \<Rightarrow> props \<Rightarrow> vkui_event \<Rightarrow> state \<Rightarrow> outcome" where
  "onMove en p e s =
     (let g = gesture_current s in
      if truthy (isPressed g) then
        (let shiftX' = num_sub (coordX en e) (startX g);
             shiftY' = num_sub (coordY en e) (startY g);
             shiftXAbs' = num_abs shiftX';
             shiftYAbs' = num_abs shiftY'
         in if multitouch e then onEnd en p e s
            else
              (let g1 =
                     (if \<not> truthy (isX g) \<and> \<not> truthy (isY g) then
                        (let willBeX = (num_ge shiftXAbs' (slideThreshold p)
                                          \<and> num_gt shiftXAbs' shiftYAbs');
                             willBeY = (num_ge shiftYAbs' (slideThreshold p)
                                          \<and> num_gt shiftYAbs' shiftXAbs');
                             willBeSlidedX = (willBeX \<and> (onMoveX p \<or> prop_onMove p));
                             willBeSlidedY = (willBeY \<and> (onMoveY p \<or> prop_onMove p))
                         in g\<lparr>isY := Some willBeY, isX := Some willBeX,
                              isSlideX := Some willBeSlidedX,
                              isSlideY := Some willBeSlidedY,
                              isSlide := Some (willBeSlidedX \<or> willBeSlidedY)\<rparr>)
                      else g)
               in if truthy (isSlide g1) then
                    (let g2 = g1\<lparr>shiftX := shiftX', shiftY := shiftY',
                                  shiftXAbs := shiftXAbs', shiftYAbs := shiftYAbs'\<rparr>
                     in handle en p e
                          [handler p OnMove, js_and (isSlideX g2) (handler p OnMoveX),
                           js_and (isSlideY g2) (handler p OnMoveY)]
                          (s\<lparr>gesture_current := g2\<rparr>))
                  else (s\<lparr>gesture_current := g1\<rparr>, [], None)))
      else (s, [], None))"

definition postGestureClick :: "props \<Rightarrow> click_event \<Rightarrow> state \<Rightarrow> outcome" where
  "postGestureClick p e s =
     (if \<not> truthy (didSlide_current s) then
        (s, (if onClickCapture p then [ClickCapture e] else []), None)
      else
        (s\<lparr>didSlide_current := Some False\<rparr>,
         (if closest_a e then [PreventDefault] else [])
           @ (if noSlideClick p then [StopPropagation]
              else if onClickCapture p then [ClickCapture e] else []),
         None))"

section \<open>Input sequences\<close>

text \<open>The events the component listens to. \<open>End\<close> is the end or the cancel event: both
  are bound to \<open>onEnd\<close>.\<close>

datatype input = Start vkui_event | Move vkui_event | End vkui_event | Click click_event

fun step :: "env \<Rightarrow> props \<Rightarrow> input \<Rightarrow> state \<Rightarrow> outcome" where
  "step en p (Start e) s = startHandler en p e s"
| "step en p (Move e) s = onMove en p e s"
| "step en p (End e) s = onEnd en p e s"
| "step en p (Click e) s = postGestureClick p e s"

text \<open>An exception in a listener ends that listener only: the refs keep what it wrote
  and the next event is handled from there. The props and the environment are the same
  for all the events of a run.\<close>

fun run :: "env \<Rightarrow> props \<Rightarrow> input list \<Rightarrow> state \<Rightarrow> state" where
  "run en p [] s = s"
| "run en p (i # is) s = run en p is (fst (step en p i s))"

fun trace :: "env \<Rightarrow> props \<Rightarrow> input list \<Rightarrow> state \<Rightarrow> action list" where
  "trace en p [] s = []"
| "trace en p (i # is) s =
     (case step en p i s of (s', acts, err) \<Rightarrow> acts @ trace en p is s')"

text \<open>The names of the callbacks called, in order.\<close>

fun callbacks :: "action list \<Rightarrow> cb list" where
  "callbacks [] = []"
| "callbacks (Callback c ev # as) = c # callbacks as"
| "callbacks (a # as) = callbacks as"

fun touch_events :: "action list \<Rightarrow> touch_event list" where
  "touch_events [] = []"
| "touch_events (Callback c ev # as) = ev # touch_events as"
| "touch_events (a # as) = touch_events as"

section \<open>Notions used in the statements\<close>

text \<open>A press is active.\<close>

definition pressed :: "state \<Rightarrow> bool" where
  "pressed s = truthy (isPressed (gesture_current s))"

text \<open>No axis is locked.\<close>

definition unlocked :: "gesture \<Rightarrow> bool" where
  "unlocked g = (\<not> truthy (isX g) \<and> \<not> truthy (isY g))"

text \<open>The consumer passed the callback: the prop of that name, read from the props
  record itself.\<close>

definition registered :: "props \<Rightarrow> cb \<Rightarrow> bool" where
  "registered p c =
     (case c of
        OnStart \<Rightarrow> onStart p
      | OnStartX \<Rightarrow> onStartX p
      | OnStartY \<Rightarrow> onStartY p
      | OnMove \<Rightarrow> prop_onMove p
      | OnMoveX \<Rightarrow> onMoveX p
      | OnMoveY \<Rightarrow> onMoveY p
      | OnEnd \<Rightarrow> prop_onEnd p
      | OnEndX \<Rightarrow> onEndX p
      | OnEndY \<Rightarrow> onEndY p)"

text \<open>The handlers of a list that are not falsy.\<close>

definition somes :: "'a option list \<Rightarrow> 'a list" where
  "somes cs = map the (filter (\<lambda>c. c \<noteq> None) cs)"

text \<open>The record \<open>startHandler\<close> writes for the start event \<open>e\<close> in state \<open>s\<close>.\<close>

definition fresh :: "env \<Rightarrow> vkui_event \<Rightarrow> state \<Rightarrow> gesture" where
  "fresh en e s =
     empty_gesture\<lparr>startX := Some (coordX en e), startY := Some (coordY en e),
                    startT := Some (clock en (ticks s)), isPressed := Some True\<rparr>"

text \<open>The lock condition in the words of the specification: the absolute displacement
  of the sample \<open>e\<close> from the start event \<open>e0\<close> on one axis is at least the threshold and
  strictly greater than the one on the other axis.\<close>

definition displacementX :: "env \<Rightarrow> vkui_event \<Rightarrow> vkui_event \<Rightarrow> int" where
  "displacementX en e0 e = \<bar>coordX en e - coordX en e0\<bar>"

definition displacementY :: "env \<Rightarrow> vkui_event \<Rightarrow> vkui_event \<Rightarrow> int" where
  "displacementY en e0 e = \<bar>coordY en e - coordY en e0\<bar>"

definition locksX :: "env \<Rightarrow> props \<Rightarrow> vkui_event \<Rightarrow> vkui_event \<Rightarrow> bool" where
  "locksX en p e0 e =
     (displacementX en e0 e \<ge> slideThreshold p
      \<and> displacementX en e0 e > displacementY en e0 e)"

definition locksY :: "env \<Rightarrow> props \<Rightarrow> vkui_event \<Rightarrow> vkui_event \<Rightarrow> bool" where
  "locksY en p e0 e =
     (displacementY en e0 e \<ge> slideThreshold p
      \<and> displacementY en e0 e > displacementX en e0 e)"

definition locks :: "env \<Rightarrow> props \<Rightarrow> vkui_event \<Rightarrow> vkui_event \<Rightarrow> bool" where
  "locks en p e0 e = (locksX en p e0 e \<or> locksY en p e0 e)"

text \<open>The sample locks an axis the consumer listens to.\<close>

definition slides :: "env \<Rightarrow> props \<Rightarrow> vkui_event \<Rightarrow> vkui_event \<Rightarrow> bool" where
  "slides en p e0 e =
     (locksX en p e0 e \<and> (onMoveX p \<or> prop_onMove p)
      \<or> locksY en p e0 e \<and> (onMoveY p \<or> prop_onMove p))"

text \<open>The four shift fields of a record.\<close>

definition shifts :: "gesture \<Rightarrow> int option \<times> int option \<times> int option \<times> int option" where
  "shifts g = (shiftX g, shiftY g, shiftXAbs g, shiftYAbs g)"

text \<open>What holds of \<open>gesture.current\<close> in every state the component reaches.\<close>

definition inv :: "props \<Rightarrow> gesture \<Rightarrow> bool" where
  "inv p g =
     ((truthy (isPressed g) \<longrightarrow> startT g \<noteq> None \<and> startX g \<noteq> None \<and> startY g \<noteq> None)
      \<and> (\<not> truthy (isPressed g) \<longrightarrow> g = empty_gesture)
      \<and> (truthy (isSlideX g) \<longrightarrow> truthy (isX g) \<and> (onMoveX p \<or> prop_onMove p))
      \<and> (truthy (isSlideY g) \<longrightarrow> truthy (isY g) \<and> (onMoveY p \<or> prop_onMove p))
      \<and> \<not> (truthy (isX g) \<and> truthy (isY g))
      \<and> (truthy (isSlide g) \<longleftrightarrow> truthy (isSlideX g) \<or> truthy (isSlideY g)))"

text \<open>The state of a gesture that has locked no axis: a press, if there is one, started
  at \<open>e0\<close>.\<close>

definition quiet :: "env \<Rightarrow> vkui_event \<Rightarrow> state \<Rightarrow> bool" where
  "quiet en e0 s =
     (unlocked (gesture_current s)
      \<and> (pressed s \<longrightarrow>
            startX (gesture_current s) = Some (coordX en e0)
            \<and> startY (gesture_current s) = Some (coordY en e0)))"

text \<open>The shift fields a slide-flagged move sample \<open>e\<close> stores for a gesture started at
  \<open>e0\<close>.\<close>

definition shifts_at :: "env \<Rightarrow> vkui_event \<Rightarrow> vkui_event
    \<Rightarrow> int option \<times> int option \<times> int option \<times> int option" where
  "shifts_at en e0 e =
     (Some (coordX en e - coordX en e0), Some (coordY en e - coordY en e0),
      Some \<bar>coordX en e - coordX en e0\<bar>, Some \<bar>coordY en e - coordY en e0\<bar>)"

text \<open>The end callbacks \<open>onEnd\<close> lists for a record, in the order of its list.\<close>

definition end_callbacks :: "gesture \<Rightarrow> cb list" where
  "end_callbacks g =
     OnEnd # (if truthy (isSlideY g) then [OnEndY] else [])
       @ (if truthy (isSlideX g) then [OnEndX] else [])"

text \<open>The callbacks of a move and of an end in the order of the specification: the
  generic one, then the one of the X axis, then the one of the Y axis.\<close>

definition move_order :: "gesture \<Rightarrow> cb list" where
  "move_order g =
     OnMove # (if truthy (isSlideX g) then [OnMoveX] else [])
       @ (if truthy (isSlideY g) then [OnMoveY] else [])"

definition end_order :: "gesture \<Rightarrow> cb list" where
  "end_order g =
     OnEnd # (if truthy (isSlideX g) then [OnEndX] else [])
       @ (if truthy (isSlideY g) then [OnEndY] else [])"

text \<open>An axis callback is called with a record that is slide-flagged on its axis.\<close>

definition gated :: "cb \<Rightarrow> touch_event \<Rightarrow> bool" where
  "gated c ev =
     ((c = OnMoveX \<or> c = OnEndX \<longrightarrow> truthy (isSlideX (snapshot ev)))
      \<and> (c = OnMoveY \<or> c = OnEndY \<longrightarrow> truthy (isSlideY (snapshot ev))))"

section \<open>Concrete inputs\<close>

text \<open>A mouse environment whose clock advances ten milliseconds a read and whose
  coordinates are the client coordinates; a consumer that listens to everything and
  swallows clicks after a slide.\<close>

definition mouse_env :: env where
  "mouse_env = \<lparr>coordX = clientX, coordY = clientY, touchEnabled = False,
                 clock = (\<lambda>n. 10 * int n)\<rparr>"

definition all_props :: props where
  "all_props =
     \<lparr>onStart = True, onStartX = True, onStartY = True,
      prop_onMove = True, onMoveX = True, onMoveY = True,
      prop_onEnd = True, onEndX = True, onEndY = True,
      onLeave = True, onClickCapture = True,
      slideThreshold = 5, noSlideClick = True, stopPropagation = False\<rparr>"

text \<open>A consumer that passes \<open>onStartX\<close>, \<open>onMoveX\<close> and \<open>onEnd\<close> only.\<close>

definition few_props :: props where
  "few_props =
     \<lparr>onStart = False, onStartX = True, onStartY = False,
      prop_onMove = False, onMoveX = True, onMoveY = False,
      prop_onEnd = True, onEndX = False, onEndY = False,
      onLeave = False, onClickCapture = False,
      slideThreshold = 5, noSlideClick = False, stopPropagation = False\<rparr>"

definition mouse_ev :: "string \<Rightarrow> int \<Rightarrow> int \<Rightarrow> vkui_event" where
  "mouse_ev t x y = \<lparr>etype = t, clientX = x, clientY = y, touches = None\<rparr>"

definition touch_ev :: "string \<Rightarrow> int \<Rightarrow> int \<Rightarrow> (int \<times> int) list \<Rightarrow> vkui_event" where
  "touch_ev t x y ps = \<lparr>etype = t, clientX = x, clientY = y, touches = Some ps\<rparr>"

text \<open>The same on a touch screen.\<close>

definition touch_env :: env where
  "touch_env = \<lparr>coordX = clientX, coordY = clientY, touchEnabled = True,
                 clock = (\<lambda>n. 10 * int n)\<rparr>"

text \<open>A press that has locked the horizontal axis and slides; the same gesture after its
  end; the same gesture aborted by a second finger.\<close>

definition sliding :: state where
  "sliding = run mouse_env all_props
     [Start (mouse_ev ''mousedown'' 0 0), Move (mouse_ev ''mousemove'' 10 1)] init"

definition slid :: state where
  "slid = run mouse_env all_props
     [Start (mouse_ev ''mousedown'' 0 0), Move (mouse_ev ''mousemove'' 10 1),
      End (mouse_ev ''mouseup'' 10 1)] init"

definition aborted :: state where
  "aborted = run touch_env all_props
     [Start (touch_ev ''touchstart'' 0 0 [(0, 0)]),
      Move (touch_ev ''touchmove'' 10 1 [(10, 1)]),
      Move (touch_ev ''touchmove'' 12 1 [(12, 1), (40, 40)])] init"

text \<open>A swipe on a touch screen, from the first touch to the lifted finger.\<close>

definition swiped :: state where
  "swiped = run touch_env all_props
     [Start (touch_ev ''touchstart'' 0 0 [(0, 0)]),
      Move (touch_ev ''touchmove'' 10 1 [(10, 1)]),
      End (touch_ev ''touchend'' 10 1 [])] init"

definition link_click :: click_event where
  "link_click = \<lparr>closest_a = True\<rparr>"

text \<open>Gestures that start at the origin: two samples that lock nothing (the second a
  tie at the threshold) and a third that locks the vertical axis; a sample far to the
  right; two samples of a swipe to the right.\<close>

definition origin :: vkui_event where
  "origin = mouse_ev ''mousedown'' 0 0"

definition diagonal_then_down :: "vkui_event list" where
  "diagonal_then_down =
     [mouse_ev ''mousemove'' 2 2, mouse_ev ''mousemove'' 5 5, mouse_ev ''mousemove'' 5 9]"

definition diagonal :: "vkui_event list" where
  "diagonal = [mouse_ev ''mousemove'' 2 2, mouse_ev ''mousemove'' 5 5]"

definition far_right :: "vkui_event list" where
  "far_right = [mouse_ev ''mousemove'' 30 9]"

definition swipe_right :: "vkui_event list" where
  "swipe_right = [mouse_ev ''mousemove'' 10 1, mouse_ev ''mousemove'' 20 3]"

text \<open>The touch events of the aborted swipe and of a later tap, and the event the
  X callback receives for the first sample of the mouse slide.\<close>

definition touch_inputs :: "input list" where
  "touch_inputs =
     [Start (touch_ev ''touchstart'' 0 0 [(0, 0)]),
      Move (touch_ev ''touchmove'' 10 1 [(10, 1)])]"

definition second_finger :: vkui_event where
  "second_finger = touch_ev ''touchmove'' 12 1 [(12, 1), (40, 40)]"

definition lifted :: vkui_event where
  "lifted = touch_ev ''touchend'' 12 1 []"

definition tap :: "input list" where
  "tap = [Start (touch_ev ''touchstart'' 50 50 [(50, 50)]),
          End (touch_ev ''touchend'' 50 50 [])]"

definition mouse_inputs :: "input list" where
  "mouse_inputs =
     [Start (mouse_ev ''mousedown'' 0 0), Move (mouse_ev ''mousemove'' 10 1)]"

definition first_slide_event :: touch_event where
  "first_slide_event =
     \<lparr>snapshot =
        \<lparr>startX = Some 0, startY = Some 0, startT = Some 0, isPressed = Some True,
         isY = Some False, isX = Some True, isSlideX = Some True, isSlideY = Some False,
         isSlide = Some True, shiftX = Some 10, shiftY = Some 1, shiftXAbs = Some 10,
         shiftYAbs = Some 1\<rparr>,
      duration = 50,
      originalEvent = mouse_ev ''mousemove'' 10 1\<rparr>"

section \<open>Sequencing\<close>

lemma and_then_pure:
  "and_then (s, acts, None) f = (fst (f s), acts @ fst (snd (f s)), snd (snd (f s)))"
  by (simp add: and_then_def split_beta)

lemma and_then_ok:
  "snd (snd r) = None \<Longrightarrow>
   and_then r f = (fst (f (fst r)), fst (snd r) @ fst (snd (f (fst r))), snd (snd (f (fst r))))"
  by (cases r) (simp add: and_then_def split_beta)

lemma and_then_err: "snd (snd r) = Some x \<Longrightarrow> and_then r f = r"
  by (cases r) (simp add: and_then_def)

lemma callbacks_append [simp]: "callbacks (xs @ ys) = callbacks xs @ callbacks ys"
  by (induction xs rule: callbacks.induct) simp_all

lemma touch_events_append [simp]: "touch_events (xs @ ys) = touch_events xs @ touch_events ys"
  by (induction xs rule: touch_events.induct) simp_all

lemma touch_events_length: "length (touch_events acts) = length (callbacks acts)"
  by (induction acts rule: callbacks.induct) simp_all

lemma somes_simps [simp]:
  "somes [] = []" "somes (None # cs) = somes cs" "somes (Some c # cs) = c # somes cs"
  by (simp_all add: somes_def)

lemma handler_cases: "handler p c = (if registered p c then Some c else None)"
  by (cases c) (simp_all add: registered_def)

declare handler.simps [simp del]

lemma somes_handlers:
  "somes [handler p a, handler p b, handler p c] = filter (registered p) [a, b, c]"
  by (simp add: handler_cases)

section \<open>handle\<close>

lemma handle_one_ok:
  "startT (gesture_current s) = Some t0 \<Longrightarrow>
   handle_one en e c s =
     (s\<lparr>ticks := Suc (ticks s)\<rparr>,
      (case c of None \<Rightarrow> []
       | Some f \<Rightarrow> [Callback f \<lparr>snapshot = gesture_current s,
                       duration = clock en (ticks s) - t0, originalEvent = e\<rparr>]),
      None)"
  by (cases c) (simp_all add: handle_one_def Let_def)

lemma handle_one_throws:
  "startT (gesture_current s) = None \<Longrightarrow>
   handle_one en e c s = (s\<lparr>ticks := Suc (ticks s)\<rparr>, [], Some TypeError)"
  by (simp add: handle_one_def Let_def)

lemma handle_each_state:
  "startT (gesture_current s) = Some t0 \<Longrightarrow>
   fst (handle_each en e cs s) = s\<lparr>ticks := ticks s + length cs\<rparr>"
  by (induction cs arbitrary: s) (simp_all add: handle_one_ok and_then_pure)

lemma handle_each_err:
  "startT (gesture_current s) = Some t0 \<Longrightarrow> snd (snd (handle_each en e cs s)) = None"
  by (induction cs arbitrary: s) (simp_all add: handle_one_ok and_then_pure)

lemma handle_each_callbacks:
  "startT (gesture_current s) = Some t0 \<Longrightarrow>
   callbacks (fst (snd (handle_each en e cs s))) = somes cs"
proof (induction cs arbitrary: s)
  case Nil
  then show ?case by simp
next
  case (Cons c cs)
  then show ?case by (cases c) (simp_all add: handle_one_ok and_then_pure)
qed

lemma handle_each_events:
  "startT (gesture_current s) = Some t0 \<Longrightarrow>
   ev \<in> set (touch_events (fst (snd (handle_each en e cs s)))) \<Longrightarrow>
   snapshot ev = gesture_current s \<and> originalEvent ev = e"
proof (induction cs arbitrary: s)
  case Nil
  then show ?case by simp
next
  case (Cons c cs)
  let ?s1 = "s\<lparr>ticks := Suc (ticks s)\<rparr>"
  have st: "startT (gesture_current ?s1) = Some t0" using Cons.prems(1) by simp
  from Cons.prems show ?case
    using Cons.IH[OF st]
    by (cases c) (auto simp add: handle_one_ok and_then_pure)
qed

lemma handle_each_throws:
  "startT (gesture_current s) = None \<Longrightarrow> cs \<noteq> [] \<Longrightarrow>
   handle_each en e cs s = (s\<lparr>ticks := Suc (ticks s)\<rparr>, [], Some TypeError)"
  by (cases cs) (simp_all add: handle_one_throws and_then_def)

lemma handle_each_gesture [simp]:
  "gesture_current (fst (handle_each en e cs s)) = gesture_current s"
proof (cases "startT (gesture_current s)")
  case None
  then show ?thesis by (cases cs) (simp_all add: handle_one_throws and_then_def)
next
  case (Some t0)
  then show ?thesis by (simp add: handle_each_state)
qed

lemma handle_each_didSlide [simp]:
  "didSlide_current (fst (handle_each en e cs s)) = didSlide_current s"
proof (cases "startT (gesture_current s)")
  case None
  then show ?thesis by (cases cs) (simp_all add: handle_one_throws and_then_def)
next
  case (Some t0)
  then show ?thesis by (simp add: handle_each_state)
qed

lemma handle_each_callbacks_subset:
  "set (callbacks (fst (snd (handle_each en e cs s)))) \<subseteq> set (somes cs)"
proof (cases "startT (gesture_current s)")
  case None
  then show ?thesis by (cases cs) (simp_all add: handle_one_throws and_then_def)
next
  case (Some t0)
  then show ?thesis by (simp add: handle_each_callbacks)
qed

lemma handle_gesture [simp]:
  "gesture_current (fst (handle en p e cs s)) = gesture_current s"
  by (simp add: handle_def and_then_pure)

lemma handle_didSlide [simp]:
  "didSlide_current (fst (handle en p e cs s)) = didSlide_current s"
  by (simp add: handle_def and_then_pure)

lemma handle_state:
  "startT (gesture_current s) = Some t0 \<Longrightarrow>
   fst (handle en p e cs s) = s\<lparr>ticks := ticks s + length cs\<rparr>"
  by (simp add: handle_def and_then_pure handle_each_state)

lemma handle_err:
  "startT (gesture_current s) = Some t0 \<Longrightarrow> snd (snd (handle en p e cs s)) = None"
  by (simp add: handle_def and_then_pure handle_each_err)

lemma handle_callbacks:
  "startT (gesture_current s) = Some t0 \<Longrightarrow>
   callbacks (fst (snd (handle en p e cs s))) = somes cs"
  by (simp add: handle_def and_then_pure handle_each_callbacks)

lemma handle_callbacks_subset:
  "set (callbacks (fst (snd (handle en p e cs s)))) \<subseteq> set (somes cs)"
  using handle_each_callbacks_subset[of en e cs s]
  by (simp add: handle_def and_then_pure)

lemma handle_events:
  "startT (gesture_current s) = Some t0 \<Longrightarrow>
   ev \<in> set (touch_events (fst (snd (handle en p e cs s)))) \<Longrightarrow>
   snapshot ev = gesture_current s \<and> originalEvent ev = e"
  using handle_each_events[of s t0 ev en e cs]
  by (auto simp add: handle_def and_then_pure split: if_splits)

section \<open>startHandler\<close>

lemma startT_fresh: "startT (fresh en e s) = Some (clock en (ticks s))"
  by (simp add: fresh_def)

lemma startHandler_unfold:
  "startHandler en p e s =
     and_then
       (handle en p e [handler p OnStart, handler p OnStartX, handler p OnStartY]
          (s\<lparr>gesture_current := fresh en e s, ticks := Suc (ticks s)\<rparr>))
       (subscribe_unless_touch en Document)"
  by (simp add: startHandler_def Let_def fresh_def)

lemma startHandler_fst:
  "fst (startHandler en p e s) =
     s\<lparr>gesture_current := fresh en e s, ticks := ticks s + 4\<rparr>"
proof -
  let ?s1 = "s\<lparr>gesture_current := fresh en e s, ticks := Suc (ticks s)\<rparr>"
  let ?cs = "[handler p OnStart, handler p OnStartX, handler p OnStartY]"
  have st: "startT (gesture_current ?s1) = Some (clock en (ticks s))"
    by (simp add: startT_fresh)
  show ?thesis
    by (simp add: startHandler_unfold and_then_ok[OF handle_err[OF st]] handle_state[OF st]
          subscribe_unless_touch_def)
qed

lemma startHandler_err: "snd (snd (startHandler en p e s)) = None"
proof -
  let ?s1 = "s\<lparr>gesture_current := fresh en e s, ticks := Suc (ticks s)\<rparr>"
  have st: "startT (gesture_current ?s1) = Some (clock en (ticks s))"
    by (simp add: startT_fresh)
  show ?thesis
    by (simp add: startHandler_unfold and_then_ok[OF handle_err[OF st]]
          subscribe_unless_touch_def)
qed

lemma startHandler_acts:
  "fst (snd (startHandler en p e s)) =
     fst (snd (handle en p e [handler p OnStart, handler p OnStartX, handler p OnStartY]
        (s\<lparr>gesture_current := fresh en e s, ticks := Suc (ticks s)\<rparr>)))
     @ (if touchEnabled en then [] else [Subscribe Document])"
proof -
  let ?s1 = "s\<lparr>gesture_current := fresh en e s, ticks := Suc (ticks s)\<rparr>"
  have st: "startT (gesture_current ?s1) = Some (clock en (ticks s))"
    by (simp add: startT_fresh)
  show ?thesis
    by (simp add: startHandler_unfold and_then_ok[OF handle_err[OF st]]
          subscribe_unless_touch_def)
qed

lemma startHandler_callbacks:
  "callbacks (fst (snd (startHandler en p e s))) =
     filter (registered p) [OnStart, OnStartX, OnStartY]"
proof -
  let ?s1 = "s\<lparr>gesture_current := fresh en e s, ticks := Suc (ticks s)\<rparr>"
  have st: "startT (gesture_current ?s1) = Some (clock en (ticks s))"
    by (simp add: startT_fresh)
  have "callbacks (if touchEnabled en then [] else [Subscribe Document]) = []"
    by simp
  then show ?thesis
    by (simp only: startHandler_acts callbacks_append
          handle_callbacks[OF st] somes_handlers append_Nil2)
qed

lemma startHandler_events:
  assumes "ev \<in> set (touch_events (fst (snd (startHandler en p e s))))"
  shows "snapshot ev = fresh en e s \<and> originalEvent ev = e"
proof -
  let ?s1 = "s\<lparr>gesture_current := fresh en e s, ticks := Suc (ticks s)\<rparr>"
  have st: "startT (gesture_current ?s1) = Some (clock en (ticks s))"
    by (simp add: startT_fresh)
  from assms have "ev \<in> set (touch_events (fst (snd (handle en p e
      [handler p OnStart, handler p OnStartX, handler p OnStartY] ?s1))))"
    by (auto simp add: startHandler_acts split: if_splits)
  from handle_events[OF st this] show ?thesis by simp
qed

section \<open>onEnd\<close>

lemma end_tail:
  "and_then (s1\<lparr>didSlide_current := d, gesture_current := g'\<rparr>, [], None)
     (\<lambda>s2. and_then (leave_if_touch p e s2) (subscribe_unless_touch en Null)) =
   (s1\<lparr>didSlide_current := d, gesture_current := g'\<rparr>,
    (if etype e = ''touchend'' \<or> etype e = ''touchcancel''
     then (if onLeave p then [Leave e] else []) else [])
    @ (if touchEnabled en then [] else [Subscribe Null]),
    None)"
  by (simp add: and_then_pure leave_if_touch_def subscribe_unless_touch_def)

lemma onEnd_not_pressed:
  "\<not> pressed s \<Longrightarrow>
   onEnd en p e s =
     (s\<lparr>didSlide_current := isSlide (gesture_current s), gesture_current := empty_gesture\<rparr>,
      (if etype e = ''touchend'' \<or> etype e = ''touchcancel''
       then (if onLeave p then [Leave e] else []) else [])
      @ (if touchEnabled en then [] else [Subscribe Null]),
      None)"
  by (simp add: onEnd_def Let_def pressed_def and_then_pure[of s "[]"] end_tail)

lemma onEnd_pressed_unfold:
  "pressed s \<Longrightarrow>
   onEnd en p e s =
     and_then
       (handle en p e
          [handler p OnEnd, js_and (isSlideY (gesture_current s)) (handler p OnEndY),
           js_and (isSlideX (gesture_current s)) (handler p OnEndX)] s)
       (\<lambda>s1. (s1\<lparr>didSlide_current := isSlide (gesture_current s),
                   gesture_current := empty_gesture\<rparr>,
               (if etype e = ''touchend'' \<or> etype e = ''touchcancel''
                then (if onLeave p then [Leave e] else []) else [])
               @ (if touchEnabled en then [] else [Subscribe Null]),
               None))"
  by (simp add: onEnd_def Let_def pressed_def end_tail)

lemma onEnd_pressed:
  assumes "pressed s" and st: "startT (gesture_current s) = Some t0"
  shows "fst (onEnd en p e s) =
           s\<lparr>ticks := ticks s + 3, didSlide_current := isSlide (gesture_current s),
              gesture_current := empty_gesture\<rparr>"
    and "snd (snd (onEnd en p e s)) = None"
    and "callbacks (fst (snd (onEnd en p e s))) =
           somes [handler p OnEnd, js_and (isSlideY (gesture_current s)) (handler p OnEndY),
                  js_and (isSlideX (gesture_current s)) (handler p OnEndX)]"
    and "touch_events (fst (snd (onEnd en p e s))) =
           touch_events (fst (snd (handle en p e
             [handler p OnEnd, js_and (isSlideY (gesture_current s)) (handler p OnEndY),
              js_and (isSlideX (gesture_current s)) (handler p OnEndX)] s)))"
  by (simp_all add: onEnd_pressed_unfold[OF assms(1)] and_then_ok[OF handle_err[OF st]]
        handle_state[OF st] handle_callbacks[OF st])

lemma onEnd_events:
  assumes "pressed s" and st: "startT (gesture_current s) = Some t0"
    and "ev \<in> set (touch_events (fst (snd (onEnd en p e s))))"
  shows "snapshot ev = gesture_current s \<and> originalEvent ev = e"
  using assms(3) handle_events[OF st, of ev en p e]
  by (simp add: onEnd_pressed(4)[OF assms(1) st])

lemma onEnd_throws:
  assumes "pressed s" and st: "startT (gesture_current s) = None"
  shows "gesture_current (fst (onEnd en p e s)) = gesture_current s"
    and "didSlide_current (fst (onEnd en p e s)) = didSlide_current s"
    and "callbacks (fst (snd (onEnd en p e s))) = []"
    and "touch_events (fst (snd (onEnd en p e s))) = []"
    and "snd (snd (onEnd en p e s)) = Some TypeError"
proof -
  let ?cs = "[handler p OnEnd, js_and (isSlideY (gesture_current s)) (handler p OnEndY),
           js_and (isSlideX (gesture_current s)) (handler p OnEndX)]"
  have h: "handle en p e ?cs s =
      (s\<lparr>ticks := Suc (ticks s)\<rparr>, (if stopPropagation p then [StopPropagation] else []),
       Some TypeError)"
    by (simp add: handle_def and_then_pure handle_each_throws[OF st] del: handle_each.simps)
  have e: "onEnd en p e s = handle en p e ?cs s"
    by (simp add: onEnd_pressed_unfold[OF assms(1)] and_then_err[of _ TypeError] h)
  show "gesture_current (fst (onEnd en p e s)) = gesture_current s"
    and "didSlide_current (fst (onEnd en p e s)) = didSlide_current s"
    and "callbacks (fst (snd (onEnd en p e s))) = []"
    and "touch_events (fst (snd (onEnd en p e s))) = []"
    and "snd (snd (onEnd en p e s)) = Some TypeError"
    by (simp_all add: e h)
qed

section \<open>onMove\<close>

lemma onMove_not_pressed: "\<not> pressed s \<Longrightarrow> onMove en p e s = (s, [], None)"
  by (simp add: onMove_def pressed_def)

lemma onMove_multitouch: "pressed s \<Longrightarrow> multitouch e \<Longrightarrow> onMove en p e s = onEnd en p e s"
  by (simp add: onMove_def pressed_def Let_def)

lemma onMove_didSlide:
  "\<not> (pressed s \<and> multitouch e) \<Longrightarrow>
   didSlide_current (fst (onMove en p e s)) = didSlide_current s"
  by (simp add: onMove_def pressed_def Let_def)

lemma onMove_locked:
  assumes "pressed s" "\<not> multitouch e" "\<not> unlocked (gesture_current s)"
  shows "gesture_current (fst (onMove en p e s)) =
     (if truthy (isSlide (gesture_current s))
      then (gesture_current s)\<lparr>shiftX := num_sub (coordX en e) (startX (gesture_current s)),
              shiftY := num_sub (coordY en e) (startY (gesture_current s)),
              shiftXAbs := num_abs (num_sub (coordX en e) (startX (gesture_current s))),
              shiftYAbs := num_abs (num_sub (coordY en e) (startY (gesture_current s)))\<rparr>
      else gesture_current s)"
  using assms by (auto simp add: onMove_def pressed_def unlocked_def Let_def)

lemma onMove_unlocked:
  assumes "pressed s" "\<not> multitouch e" "unlocked (gesture_current s)"
    and "startX (gesture_current s) = Some (coordX en e0)"
    and "startY (gesture_current s) = Some (coordY en e0)"
  shows "gesture_current (fst (onMove en p e s)) =
     (if slides en p e0 e
      then (gesture_current s)\<lparr>isY := Some (locksY en p e0 e), isX := Some (locksX en p e0 e),
              isSlideX := Some (locksX en p e0 e \<and> (onMoveX p \<or> prop_onMove p)),
              isSlideY := Some (locksY en p e0 e \<and> (onMoveY p \<or> prop_onMove p)),
              isSlide := Some True,
              shiftX := Some (coordX en e - coordX en e0),
              shiftY := Some (coordY en e - coordY en e0),
              shiftXAbs := Some \<bar>coordX en e - coordX en e0\<bar>,
              shiftYAbs := Some \<bar>coordY en e - coordY en e0\<bar>\<rparr>
      else (gesture_current s)\<lparr>isY := Some (locksY en p e0 e), isX := Some (locksX en p e0 e),
              isSlideX := Some False, isSlideY := Some False, isSlide := Some False\<rparr>)"
  using assms
  by (auto simp add: onMove_def pressed_def unlocked_def Let_def locksX_def locksY_def
        slides_def truthy_def
        displacementX_def displacementY_def num_sub_def num_abs_def num_ge_def num_gt_def)

section \<open>The invariant\<close>

lemma onMove_unlocked_at:
  assumes "pressed s" "\<not> multitouch e" "unlocked (gesture_current s)"
    and "startX (gesture_current s) = Some x0"
    and "startY (gesture_current s) = Some y0"
  shows "gesture_current (fst (onMove en p e s)) =
     (let wx = (\<bar>coordX en e - x0\<bar> \<ge> slideThreshold p
                  \<and> \<bar>coordX en e - x0\<bar> > \<bar>coordY en e - y0\<bar>);
          wy = (\<bar>coordY en e - y0\<bar> \<ge> slideThreshold p
                  \<and> \<bar>coordY en e - y0\<bar> > \<bar>coordX en e - x0\<bar>);
          sx = (wx \<and> (onMoveX p \<or> prop_onMove p));
          sy = (wy \<and> (onMoveY p \<or> prop_onMove p));
          g1 = (gesture_current s)\<lparr>isY := Some wy, isX := Some wx,
                  isSlideX := Some sx, isSlideY := Some sy, isSlide := Some (sx \<or> sy)\<rparr>
      in if sx \<or> sy
         then g1\<lparr>shiftX := Some (coordX en e - x0), shiftY := Some (coordY en e - y0),
                 shiftXAbs := Some \<bar>coordX en e - x0\<bar>,
                 shiftYAbs := Some \<bar>coordY en e - y0\<bar>\<rparr>
         else g1)"
  using assms
  by (auto simp add: onMove_def pressed_def unlocked_def Let_def truthy_def
        num_sub_def num_abs_def num_ge_def num_gt_def)

lemma inv_empty: "inv p empty_gesture"
  by (simp add: inv_def empty_gesture_def truthy_def)

lemma inv_fresh: "inv p (fresh en e s)"
  by (simp add: inv_def fresh_def empty_gesture_def truthy_def)

lemma inv_onEnd:
  assumes "inv p (gesture_current s)"
  shows "inv p (gesture_current (fst (onEnd en p e s)))"
proof (cases "pressed s")
  case False
  then show ?thesis by (simp add: onEnd_not_pressed inv_empty)
next
  case True
  with assms obtain t0 where "startT (gesture_current s) = Some t0"
    by (auto simp add: inv_def pressed_def)
  from onEnd_pressed(1)[OF True this] show ?thesis by (simp add: inv_empty)
qed

lemma inv_onMove:
  assumes "inv p (gesture_current s)"
  shows "inv p (gesture_current (fst (onMove en p e s)))"
proof (cases "pressed s")
  case False
  then show ?thesis using assms by (simp add: onMove_not_pressed)
next
  case True
  show ?thesis
  proof (cases "multitouch e")
    case True
    with \<open>pressed s\<close> show ?thesis using inv_onEnd[OF assms] by (simp add: onMove_multitouch)
  next
    case False
    show ?thesis
    proof (cases "unlocked (gesture_current s)")
      case False
      from onMove_locked[OF \<open>pressed s\<close> \<open>\<not> multitouch e\<close> False, of en p] assms
        \<open>pressed s\<close>
      show ?thesis by (simp add: inv_def pressed_def)
    next
      case True
      from assms \<open>pressed s\<close> obtain x0 y0 where
        "startX (gesture_current s) = Some x0" "startY (gesture_current s) = Some y0"
        by (auto simp add: inv_def pressed_def)
      from onMove_unlocked_at[OF \<open>pressed s\<close> \<open>\<not> multitouch e\<close> True this, of en p] assms
        \<open>pressed s\<close>
      show ?thesis by (simp add: inv_def Let_def truthy_def pressed_def)
    qed
  qed
qed

lemma inv_step:
  assumes "inv p (gesture_current s)"
  shows "inv p (gesture_current (fst (step en p i s)))"
proof (cases i)
  case (Start e)
  then show ?thesis by (simp add: startHandler_fst inv_fresh)
next
  case (Move e)
  then show ?thesis using inv_onMove[OF assms] by simp
next
  case (End e)
  then show ?thesis using inv_onEnd[OF assms] by simp
next
  case (Click e)
  then show ?thesis using assms by (simp add: postGestureClick_def)
qed

lemma inv_run: "inv p (gesture_current s) \<Longrightarrow> inv p (gesture_current (run en p is s))"
  by (induction "is" arbitrary: s) (simp_all add: inv_step)

lemma inv_reach: "inv p (gesture_current (run en p is init))"
  by (rule inv_run) (simp add: init_def inv_empty)

section \<open>Sequences of move samples\<close>

lemma run_append: "run en p (xs @ ys) s = run en p ys (run en p xs s)"
  by (induction xs arbitrary: s) simp_all

lemma trace_append:
  "trace en p (xs @ ys) s = trace en p xs s @ trace en p ys (run en p xs s)"
  by (induction xs arbitrary: s) (simp_all add: split_beta)

lemma onMove_single_frame:
  assumes "pressed s" "\<not> multitouch e"
  shows "pressed (fst (onMove en p e s))"
    and "startX (gesture_current (fst (onMove en p e s))) = startX (gesture_current s)"
    and "startY (gesture_current (fst (onMove en p e s))) = startY (gesture_current s)"
    and "startT (gesture_current (fst (onMove en p e s))) = startT (gesture_current s)"
  using assms by (simp_all add: onMove_def pressed_def Let_def)

lemma moves_frame:
  assumes "pressed s" "\<forall>e \<in> set es. \<not> multitouch e"
  shows "pressed (run en p (map Move es) s)
     \<and> startX (gesture_current (run en p (map Move es) s)) = startX (gesture_current s)
     \<and> startY (gesture_current (run en p (map Move es) s)) = startY (gesture_current s)
     \<and> startT (gesture_current (run en p (map Move es) s)) = startT (gesture_current s)"
  using assms
proof (induction es arbitrary: s)
  case Nil
  then show ?case by simp
next
  case (Cons e es)
  then have single: "\<not> multitouch e" and rest: "\<forall>e \<in> set es. \<not> multitouch e"
    by simp_all
  note f = onMove_single_frame[OF Cons.prems(1) single, of en p]
  from Cons.IH[OF f(1) rest] show ?case by (simp add: f)
qed

lemma onMove_locked_frame:
  assumes "pressed s" "\<not> multitouch e" "\<not> unlocked (gesture_current s)"
  shows "isX (gesture_current (fst (onMove en p e s))) = isX (gesture_current s)"
    and "isY (gesture_current (fst (onMove en p e s))) = isY (gesture_current s)"
    and "isSlide (gesture_current (fst (onMove en p e s))) = isSlide (gesture_current s)"
    and "\<not> unlocked (gesture_current (fst (onMove en p e s)))"
  using assms(3) by (simp_all add: onMove_locked[OF assms] unlocked_def)

lemma moves_locked:
  assumes "pressed s" "\<forall>e \<in> set es. \<not> multitouch e" "\<not> unlocked (gesture_current s)"
  shows "isX (gesture_current (run en p (map Move es) s)) = isX (gesture_current s)
     \<and> isY (gesture_current (run en p (map Move es) s)) = isY (gesture_current s)
     \<and> isSlide (gesture_current (run en p (map Move es) s)) = isSlide (gesture_current s)"
  using assms
proof (induction es arbitrary: s)
  case Nil
  then show ?case by simp
next
  case (Cons e es)
  then have single: "\<not> multitouch e" and rest: "\<forall>e \<in> set es. \<not> multitouch e"
    by simp_all
  note f = onMove_single_frame[OF Cons.prems(1) single, of en p]
  note l = onMove_locked_frame[OF Cons.prems(1) single Cons.prems(3), of en p]
  from Cons.IH[OF f(1) rest l(4)] show ?case by (simp add: l)
qed

lemma onMove_unlocked_lock:
  assumes "pressed s" "\<not> multitouch e" "unlocked (gesture_current s)"
    and "startX (gesture_current s) = Some (coordX en e0)"
    and "startY (gesture_current s) = Some (coordY en e0)"
  shows "isX (gesture_current (fst (onMove en p e s))) = Some (locksX en p e0 e)"
    and "isY (gesture_current (fst (onMove en p e s))) = Some (locksY en p e0 e)"
    and "isSlide (gesture_current (fst (onMove en p e s))) = Some (slides en p e0 e)"
    and "unlocked (gesture_current (fst (onMove en p e s))) = (\<not> locks en p e0 e)"
  by (simp_all add: onMove_unlocked[OF assms] unlocked_def truthy_def locks_def)

lemma locksX_not_locksY: "locksX en p e0 e \<Longrightarrow> \<not> locksY en p e0 e"
  by (simp add: locksX_def locksY_def)

lemma moves_unlocked:
  assumes "pressed s" "\<forall>e \<in> set es. \<not> multitouch e" "unlocked (gesture_current s)"
    and "startX (gesture_current s) = Some (coordX en e0)"
    and "startY (gesture_current s) = Some (coordY en e0)"
  shows "(case find (locks en p e0) es of
            None \<Rightarrow> unlocked (gesture_current (run en p (map Move es) s))
          | Some e \<Rightarrow>
              isX (gesture_current (run en p (map Move es) s)) = Some (locksX en p e0 e)
              \<and> isY (gesture_current (run en p (map Move es) s)) = Some (locksY en p e0 e))"
  using assms
proof (induction es arbitrary: s)
  case Nil
  then show ?case by simp
next
  case (Cons e es)
  then have single: "\<not> multitouch e" and rest: "\<forall>e \<in> set es. \<not> multitouch e"
    by simp_all
  let ?s1 = "fst (onMove en p e s)"
  note f = onMove_single_frame[OF Cons.prems(1) single, of en p]
  note u = onMove_unlocked_lock[OF Cons.prems(1) single Cons.prems(3,4,5), of p]
  show ?case
  proof (cases "locks en p e0 e")
    case True
    then have "\<not> unlocked (gesture_current ?s1)" by (simp add: u(4))
    from moves_locked[OF f(1) rest this, of en p] True show ?thesis
      by (simp add: u)
  next
    case False
    then have un: "unlocked (gesture_current ?s1)" by (simp add: u(4))
    have sx: "startX (gesture_current ?s1) = Some (coordX en e0)"
      and sy: "startY (gesture_current ?s1) = Some (coordY en e0)"
      by (simp_all add: f Cons.prems)
    from Cons.IH[OF f(1) rest un sx sy] False show ?thesis
      by (simp split: option.splits)
  qed
qed

lemma after_start:
  "pressed (fst (startHandler en p e0 s0))"
  "unlocked (gesture_current (fst (startHandler en p e0 s0)))"
  "startX (gesture_current (fst (startHandler en p e0 s0))) = Some (coordX en e0)"
  "startY (gesture_current (fst (startHandler en p e0 s0))) = Some (coordY en e0)"
  "startT (gesture_current (fst (startHandler en p e0 s0))) = Some (clock en (ticks s0))"
  "isSlide (gesture_current (fst (startHandler en p e0 s0))) = None"
  "shifts (gesture_current (fst (startHandler en p e0 s0))) = (None, None, None, None)"
  by (simp_all add: startHandler_fst fresh_def pressed_def unlocked_def truthy_def
        empty_gesture_def shifts_def)

lemma find_append_Some: "find P xs = Some x \<Longrightarrow> find P (xs @ ys) = Some x"
  by (induction xs) (auto split: if_splits)

section \<open>Samples that do not lock\<close>

lemma somes_end_subset:
  "set (somes [handler p OnEnd, js_and a (handler p OnEndY), js_and b (handler p OnEndX)])
     \<subseteq> {OnEnd, OnEndX, OnEndY}"
  by (auto simp add: js_and_def handler_cases)

lemma onEnd_callbacks_subset:
  "set (callbacks (fst (snd (onEnd en p e s)))) \<subseteq> {OnEnd, OnEndX, OnEndY}"
proof (cases "pressed s")
  case False
  then show ?thesis by (simp add: onEnd_not_pressed)
next
  case True
  show ?thesis
  proof (cases "startT (gesture_current s)")
    case None
    from onEnd_throws(3)[OF True None] show ?thesis by simp
  next
    case (Some t0)
    from onEnd_pressed(3)[OF True Some] somes_end_subset show ?thesis by simp
  qed
qed

lemma onEnd_gesture_cases:
  "gesture_current (fst (onEnd en p e s)) = empty_gesture
   \<or> (pressed s \<and> gesture_current (fst (onEnd en p e s)) = gesture_current s)"
proof (cases "pressed s")
  case False
  then show ?thesis by (simp add: onEnd_not_pressed)
next
  case True
  show ?thesis
  proof (cases "startT (gesture_current s)")
    case None
    from onEnd_throws(1)[OF True None] True show ?thesis by simp
  next
    case (Some t0)
    from onEnd_pressed(1)[OF True Some] show ?thesis by simp
  qed
qed

lemma onMove_unlocked_quiet:
  assumes "pressed s" "\<not> multitouch e" "unlocked (gesture_current s)"
    and "startX (gesture_current s) = Some (coordX en e0)"
    and "startY (gesture_current s) = Some (coordY en e0)"
    and "\<not> slides en p e0 e"
  shows "fst (snd (onMove en p e s)) = []"
  using assms
  by (auto simp add: onMove_def pressed_def unlocked_def Let_def locksX_def locksY_def
        slides_def truthy_def
        displacementX_def displacementY_def num_sub_def num_abs_def num_ge_def num_gt_def)

lemma quiet_empty: "gesture_current s = empty_gesture \<Longrightarrow> quiet en e0 s"
  by (simp add: quiet_def unlocked_def pressed_def truthy_def empty_gesture_def)

lemma quiet_onMove:
  assumes "quiet en e0 s" "\<not> locks en p e0 e"
  shows "quiet en e0 (fst (onMove en p e s))"
    and "set (callbacks (fst (snd (onMove en p e s)))) \<inter> {OnMove, OnMoveX, OnMoveY} = {}"
    and "\<not> multitouch e \<Longrightarrow> fst (snd (onMove en p e s)) = []"
proof -
  have ns: "\<not> slides en p e0 e" using assms(2) by (auto simp add: locks_def slides_def)
  have "quiet en e0 (fst (onMove en p e s))
    \<and> set (callbacks (fst (snd (onMove en p e s)))) \<inter> {OnMove, OnMoveX, OnMoveY} = {}
    \<and> (\<not> multitouch e \<longrightarrow> fst (snd (onMove en p e s)) = [])"
  proof (cases "pressed s")
    case False
    then show ?thesis using assms(1) by (simp add: onMove_not_pressed)
  next
    case True
    with assms(1) have un: "unlocked (gesture_current s)"
      and sx: "startX (gesture_current s) = Some (coordX en e0)"
      and sy: "startY (gesture_current s) = Some (coordY en e0)"
      by (simp_all add: quiet_def)
    show ?thesis
    proof (cases "multitouch e")
      case True
      have q: "quiet en e0 (fst (onEnd en p e s))"
        using onEnd_gesture_cases[of en p e s]
      proof
        assume "gesture_current (fst (onEnd en p e s)) = empty_gesture"
        then show ?thesis by (rule quiet_empty)
      next
        assume "pressed s \<and> gesture_current (fst (onEnd en p e s)) = gesture_current s"
        then show ?thesis using assms(1) by (simp add: quiet_def pressed_def)
      qed
      have "set (callbacks (fst (snd (onEnd en p e s)))) \<inter> {OnMove, OnMoveX, OnMoveY} = {}"
        using onEnd_callbacks_subset[of en p e s] by auto
      with q True \<open>pressed s\<close> show ?thesis by (simp add: onMove_multitouch)
    next
      case False
      note f = onMove_single_frame[OF \<open>pressed s\<close> False, of en p]
      note u = onMove_unlocked_lock[OF \<open>pressed s\<close> False un sx sy, of p]
      have "quiet en e0 (fst (onMove en p e s))"
        using assms(2) by (simp add: quiet_def u(4) f sx sy)
      moreover have "fst (snd (onMove en p e s)) = []"
        by (rule onMove_unlocked_quiet[OF \<open>pressed s\<close> False un sx sy ns])
      ultimately show ?thesis by simp
    qed
  qed
  then show "quiet en e0 (fst (onMove en p e s))"
    and "set (callbacks (fst (snd (onMove en p e s)))) \<inter> {OnMove, OnMoveX, OnMoveY} = {}"
    and "\<not> multitouch e \<Longrightarrow> fst (snd (onMove en p e s)) = []"
    by simp_all
qed

lemma quiet_moves:
  assumes "quiet en e0 s" "\<forall>e \<in> set es. \<not> locks en p e0 e"
  shows "quiet en e0 (run en p (map Move es) s)
    \<and> set (callbacks (trace en p (map Move es) s)) \<inter> {OnMove, OnMoveX, OnMoveY} = {}
    \<and> ((\<forall>e \<in> set es. \<not> multitouch e) \<longrightarrow> trace en p (map Move es) s = [])"
  using assms
proof (induction es arbitrary: s)
  case Nil
  then show ?case by simp
next
  case (Cons e es)
  then have nl: "\<not> locks en p e0 e" and rest: "\<forall>e \<in> set es. \<not> locks en p e0 e"
    by simp_all
  note q = quiet_onMove[OF Cons.prems(1) nl]
  from Cons.IH[OF q(1) rest] q(2) q(3) show ?case
    by (auto simp add: split_beta)
qed

section \<open>The shift fields\<close>

lemma onMove_locked_shifts:
  assumes "pressed s" "\<not> multitouch e" "\<not> unlocked (gesture_current s)"
    and "startX (gesture_current s) = Some (coordX en e0)"
    and "startY (gesture_current s) = Some (coordY en e0)"
  shows "shifts (gesture_current (fst (onMove en p e s))) =
     (if truthy (isSlide (gesture_current s)) then shifts_at en e0 e
      else shifts (gesture_current s))"
  using assms(4,5)
  by (simp add: onMove_locked[OF assms(1,2,3)] shifts_def shifts_at_def num_sub_def num_abs_def)

lemma onMove_unlocked_shifts:
  assumes "pressed s" "\<not> multitouch e" "unlocked (gesture_current s)"
    and "startX (gesture_current s) = Some (coordX en e0)"
    and "startY (gesture_current s) = Some (coordY en e0)"
  shows "shifts (gesture_current (fst (onMove en p e s))) =
     (if slides en p e0 e then shifts_at en e0 e else shifts (gesture_current s))"
  by (simp add: onMove_unlocked[OF assms] shifts_def shifts_at_def)

lemma moves_locked_shifts:
  assumes "pressed s" "\<forall>e \<in> set es. \<not> multitouch e" "\<not> unlocked (gesture_current s)"
    and "startX (gesture_current s) = Some (coordX en e0)"
    and "startY (gesture_current s) = Some (coordY en e0)"
  shows "shifts (gesture_current (run en p (map Move es) s)) =
     (if truthy (isSlide (gesture_current s)) \<and> es \<noteq> [] then shifts_at en e0 (last es)
      else shifts (gesture_current s))"
  using assms
proof (induction es arbitrary: s)
  case Nil
  then show ?case by simp
next
  case (Cons e es)
  then have single: "\<not> multitouch e" and rest: "\<forall>e \<in> set es. \<not> multitouch e"
    by simp_all
  let ?s1 = "fst (onMove en p e s)"
  note f = onMove_single_frame[OF Cons.prems(1) single, of en p]
  note l = onMove_locked_frame[OF Cons.prems(1) single Cons.prems(3), of en p]
  note sh = onMove_locked_shifts[OF Cons.prems(1) single Cons.prems(3,4,5), of p]
  have sx: "startX (gesture_current ?s1) = Some (coordX en e0)"
    and sy: "startY (gesture_current ?s1) = Some (coordY en e0)"
    by (simp_all add: f Cons.prems)
  from Cons.IH[OF f(1) rest l(4) sx sy] show ?case
    by (simp add: l(3) sh)
qed

lemma moves_unlocked_shifts:
  assumes "pressed s" "\<forall>e \<in> set es. \<not> multitouch e" "unlocked (gesture_current s)"
    and "startX (gesture_current s) = Some (coordX en e0)"
    and "startY (gesture_current s) = Some (coordY en e0)"
  shows "shifts (gesture_current (run en p (map Move es) s)) =
     (case find (locks en p e0) es of
        None \<Rightarrow> shifts (gesture_current s)
      | Some e \<Rightarrow> if slides en p e0 e then shifts_at en e0 (last es)
                  else shifts (gesture_current s))"
  using assms
proof (induction es arbitrary: s)
  case Nil
  then show ?case by simp
next
  case (Cons e es)
  then have single: "\<not> multitouch e" and rest: "\<forall>e \<in> set es. \<not> multitouch e"
    by simp_all
  let ?s1 = "fst (onMove en p e s)"
  note f = onMove_single_frame[OF Cons.prems(1) single, of en p]
  note u = onMove_unlocked_lock[OF Cons.prems(1) single Cons.prems(3,4,5), of p]
  note sh = onMove_unlocked_shifts[OF Cons.prems(1) single Cons.prems(3,4,5), of p]
  have sx: "startX (gesture_current ?s1) = Some (coordX en e0)"
    and sy: "startY (gesture_current ?s1) = Some (coordY en e0)"
    by (simp_all add: f Cons.prems)
  show ?case
  proof (cases "locks en p e0 e")
    case True
    then have "\<not> unlocked (gesture_current ?s1)" by (simp add: u(4))
    from moves_locked_shifts[OF f(1) rest this sx sy, of p] True show ?thesis
      by (simp add: u(3) sh truthy_def)
  next
    case False
    then have un: "unlocked (gesture_current ?s1)" by (simp add: u(4))
    from False have "\<not> slides en p e0 e" by (auto simp add: locks_def slides_def)
    with Cons.IH[OF f(1) rest un sx sy] False show ?thesis
      by (simp add: sh split: option.splits)
  qed
qed

lemma somes_end:
  "somes [handler p OnEnd, js_and (isSlideY g) (handler p OnEndY),
          js_and (isSlideX g) (handler p OnEndX)] =
   filter (registered p) (end_callbacks g)"
  by (simp add: js_and_def handler_cases end_callbacks_def)

section \<open>Which callback is called, and with which record\<close>

lemma handle_each_mem:
  "Callback c ev \<in> set (fst (snd (handle_each en e cs s))) \<Longrightarrow>
   Some c \<in> set cs \<and> snapshot ev = gesture_current s \<and> originalEvent ev = e"
proof (induction cs arbitrary: s)
  case Nil
  then show ?case by simp
next
  case (Cons c' cs)
  show ?case
  proof (cases "startT (gesture_current s)")
    case None
    with Cons.prems show ?thesis by (simp add: handle_one_throws and_then_def)
  next
    case (Some t0)
    with Cons.prems Cons.IH[of "s\<lparr>ticks := Suc (ticks s)\<rparr>"] show ?thesis
      by (cases c') (auto simp add: handle_one_ok and_then_pure)
  qed
qed

lemma handle_mem:
  "Callback c ev \<in> set (fst (snd (handle en p e cs s))) \<Longrightarrow>
   Some c \<in> set cs \<and> snapshot ev = gesture_current s \<and> originalEvent ev = e"
  using handle_each_mem[of c ev en e cs s]
  by (auto simp add: handle_def and_then_pure split: if_splits)

lemma handle_callbacks_cases:
  "callbacks (fst (snd (handle en p e cs s))) = somes cs
   \<or> callbacks (fst (snd (handle en p e cs s))) = []"
proof (cases "startT (gesture_current s)")
  case None
  then show ?thesis
    by (cases cs) (simp_all add: handle_def and_then_pure handle_one_throws and_then_def)
next
  case (Some t0)
  then show ?thesis by (simp add: handle_callbacks)
qed

lemma onEnd_mem:
  assumes "Callback c ev \<in> set (fst (snd (onEnd en p e s)))"
  shows "Some c \<in> set [handler p OnEnd, js_and (isSlideY (gesture_current s)) (handler p OnEndY),
                        js_and (isSlideX (gesture_current s)) (handler p OnEndX)]
         \<and> snapshot ev = gesture_current s \<and> originalEvent ev = e"
proof (cases "pressed s")
  case False
  with assms show ?thesis by (simp add: onEnd_not_pressed split: if_splits)
next
  case True
  let ?cs = "[handler p OnEnd, js_and (isSlideY (gesture_current s)) (handler p OnEndY),
              js_and (isSlideX (gesture_current s)) (handler p OnEndX)]"
  have "Callback c ev \<in> set (fst (snd (handle en p e ?cs s)))"
  proof (cases "snd (snd (handle en p e ?cs s))")
    case None
    with assms show ?thesis
      by (simp add: onEnd_pressed_unfold[OF True] and_then_ok split: if_splits)
  next
    case (Some x)
    with assms show ?thesis
      by (simp add: onEnd_pressed_unfold[OF True] and_then_err)
  qed
  from handle_mem[OF this] show ?thesis .
qed

lemma onMove_single_outcome:
  assumes "pressed s" "\<not> multitouch e"
  shows "snd (onMove en p e s) =
     (if truthy (isSlide (gesture_current (fst (onMove en p e s))))
      then snd (handle en p e
             [handler p OnMove,
              js_and (isSlideX (gesture_current (fst (onMove en p e s)))) (handler p OnMoveX),
              js_and (isSlideY (gesture_current (fst (onMove en p e s)))) (handler p OnMoveY)]
             (s\<lparr>gesture_current := gesture_current (fst (onMove en p e s))\<rparr>))
      else ([], None))"
  using assms
  by (simp add: onMove_def pressed_def Let_def)


lemma gate_end:
  "Some c \<in> set [handler p OnEnd, js_and a (handler p OnEndY), js_and b (handler p OnEndX)] \<Longrightarrow>
   c = OnEnd \<or> (c = OnEndY \<and> truthy a) \<or> (c = OnEndX \<and> truthy b)"
  by (auto simp add: js_and_def handler_cases split: if_splits)

lemma gate_move:
  "Some c \<in> set [handler p OnMove, js_and a (handler p OnMoveX), js_and b (handler p OnMoveY)] \<Longrightarrow>
   c = OnMove \<or> (c = OnMoveX \<and> truthy a) \<or> (c = OnMoveY \<and> truthy b)"
  by (auto simp add: js_and_def handler_cases split: if_splits)

lemma gate_start:
  "Some c \<in> set [handler p OnStart, handler p OnStartX, handler p OnStartY] \<Longrightarrow>
   c = OnStart \<or> c = OnStartX \<or> c = OnStartY"
  by (auto simp add: handler_cases split: if_splits)

lemma onEnd_gated:
  assumes "Callback c ev \<in> set (fst (snd (onEnd en p e s)))"
  shows "gated c ev" and "snapshot ev = gesture_current s"
proof -
  from onEnd_mem[OF assms] gate_end[of c p "isSlideY (gesture_current s)"
      "isSlideX (gesture_current s)"]
  show "gated c ev" and "snapshot ev = gesture_current s"
    by (auto simp add: gated_def)
qed

lemma onMove_gated:
  assumes "Callback c ev \<in> set (fst (snd (onMove en p e s)))"
  shows "gated c ev"
    and "snapshot ev = gesture_current s
         \<or> snapshot ev = gesture_current (fst (onMove en p e s))"
proof -
  have "gated c ev \<and> (snapshot ev = gesture_current s
         \<or> snapshot ev = gesture_current (fst (onMove en p e s)))"
  proof (cases "pressed s")
    case False
    with assms show ?thesis by (simp add: onMove_not_pressed)
  next
    case True
    show ?thesis
    proof (cases "multitouch e")
      case True
      with \<open>pressed s\<close> assms onEnd_gated[of c ev en p e s] show ?thesis
        by (simp add: onMove_multitouch)
    next
      case False
      let ?g = "gesture_current (fst (onMove en p e s))"
      from assms have "Callback c ev \<in> set (fst (snd (handle en p e
             [handler p OnMove, js_and (isSlideX ?g) (handler p OnMoveX),
              js_and (isSlideY ?g) (handler p OnMoveY)]
             (s\<lparr>gesture_current := ?g\<rparr>))))"
        using onMove_single_outcome[OF \<open>pressed s\<close> False, of en p]
        by (simp split: if_splits)
      from handle_mem[OF this] gate_move[of c p "isSlideX ?g" "isSlideY ?g"]
      show ?thesis by (auto simp add: gated_def)
    qed
  qed
  then show "gated c ev"
    and "snapshot ev = gesture_current s
         \<or> snapshot ev = gesture_current (fst (onMove en p e s))"
    by simp_all
qed

lemma startHandler_gated:
  assumes "Callback c ev \<in> set (fst (snd (startHandler en p e s)))"
  shows "gated c ev" and "snapshot ev = fresh en e s"
proof -
  from assms have "Callback c ev \<in> set (fst (snd (handle en p e
      [handler p OnStart, handler p OnStartX, handler p OnStartY]
      (s\<lparr>gesture_current := fresh en e s, ticks := Suc (ticks s)\<rparr>))))"
    by (auto simp add: startHandler_acts split: if_splits)
  from handle_mem[OF this] gate_start[of c p]
  show "gated c ev" and "snapshot ev = fresh en e s"
    by (auto simp add: gated_def)
qed

lemma step_gated:
  assumes "inv p (gesture_current s)"
    and "Callback c ev \<in> set (fst (snd (step en p i s)))"
  shows "gated c ev \<and> inv p (snapshot ev)"
proof (cases i)
  case (Start e)
  with assms(2) startHandler_gated[of c ev en p e s] show ?thesis
    by (simp add: inv_fresh)
next
  case (Move e)
  with assms onMove_gated[of c ev en p e s] inv_onMove[OF assms(1), of en e] show ?thesis
    by auto
next
  case (End e)
  with assms onEnd_gated[of c ev en p e s] show ?thesis by simp
next
  case (Click e)
  with assms(2) show ?thesis by (simp add: postGestureClick_def split: if_splits)
qed

lemma trace_gated:
  assumes "inv p (gesture_current s)"
    and "Callback c ev \<in> set (trace en p is s)"
  shows "gated c ev \<and> inv p (snapshot ev)"
  using assms
proof (induction "is" arbitrary: s)
  case Nil
  then show ?case by simp
next
  case (Cons i "is")
  from Cons.prems(2) have
    "Callback c ev \<in> set (fst (snd (step en p i s)))
     \<or> Callback c ev \<in> set (trace en p is (fst (step en p i s)))"
    by (simp add: split_beta)
  then show ?case
  proof
    assume "Callback c ev \<in> set (fst (snd (step en p i s)))"
    from step_gated[OF Cons.prems(1) this] show ?thesis .
  next
    assume "Callback c ev \<in> set (trace en p is (fst (step en p i s)))"
    from Cons.IH[OF inv_step[OF Cons.prems(1)] this] show ?thesis .
  qed
qed

section \<open>The order of the callbacks\<close>

lemma somes_move:
  "somes [handler p OnMove, js_and (isSlideX g) (handler p OnMoveX),
          js_and (isSlideY g) (handler p OnMoveY)] =
   filter (registered p) (move_order g)"
  by (simp add: js_and_def handler_cases move_order_def)

lemma end_callbacks_order:
  "\<not> (truthy (isSlideX g) \<and> truthy (isSlideY g)) \<Longrightarrow> end_callbacks g = end_order g"
  by (auto simp add: end_callbacks_def end_order_def)

lemma inv_exclusive: "inv p g \<Longrightarrow> \<not> (truthy (isSlideX g) \<and> truthy (isSlideY g))"
  by (auto simp add: inv_def)

lemma onEnd_callbacks_reach:
  assumes "inv p (gesture_current s)"
  shows "callbacks (fst (snd (onEnd en p e s))) =
     (if pressed s then filter (registered p) (end_order (gesture_current s)) else [])"
proof (cases "pressed s")
  case False
  then show ?thesis by (simp add: onEnd_not_pressed)
next
  case True
  with assms obtain t0 where t: "startT (gesture_current s) = Some t0"
    by (auto simp add: inv_def pressed_def)
  from onEnd_pressed(3)[OF True t] True show ?thesis
    by (simp add: somes_end end_callbacks_order[OF inv_exclusive[OF assms]])
qed

lemma onMove_callbacks_reach:
  assumes "inv p (gesture_current s)"
  shows "callbacks (fst (snd (onMove en p e s))) =
     (if pressed s then
        (if multitouch e then filter (registered p) (end_order (gesture_current s))
         else if truthy (isSlide (gesture_current (fst (onMove en p e s))))
           then filter (registered p) (move_order (gesture_current (fst (onMove en p e s))))
           else [])
      else [])"
proof (cases "pressed s")
  case False
  then show ?thesis by (simp add: onMove_not_pressed)
next
  case True
  show ?thesis
  proof (cases "multitouch e")
    case True
    with \<open>pressed s\<close> onEnd_callbacks_reach[OF assms, of en e] show ?thesis
      by (simp add: onMove_multitouch)
  next
    case False
    let ?g = "gesture_current (fst (onMove en p e s))"
    from assms \<open>pressed s\<close> obtain t0 where t: "startT (gesture_current s) = Some t0"
      by (auto simp add: inv_def pressed_def)
    have t': "startT (gesture_current (s\<lparr>gesture_current := ?g\<rparr>)) = Some t0"
      by (simp add: onMove_single_frame(4)[OF \<open>pressed s\<close> False] t)
    have "fst (snd (onMove en p e s)) =
       (if truthy (isSlide ?g)
        then fst (snd (handle en p e
             [handler p OnMove, js_and (isSlideX ?g) (handler p OnMoveX),
              js_and (isSlideY ?g) (handler p OnMoveY)]
             (s\<lparr>gesture_current := ?g\<rparr>)))
        else [])"
      using onMove_single_outcome[OF \<open>pressed s\<close> False, of en p]
      by (simp split: if_splits)
    then show ?thesis using \<open>pressed s\<close> False
      by (simp add: handle_callbacks[OF t'] somes_move)
  qed
qed

lemma subseq_start: "subseq (filter P [OnStart, OnStartX, OnStartY]) [OnStart, OnStartX, OnStartY]"
  by simp

lemma subseq_move: "subseq (filter P (move_order g)) [OnMove, OnMoveX, OnMoveY]"
  by (simp add: move_order_def)

lemma subseq_end: "subseq (filter P (end_order g)) [OnEnd, OnEndX, OnEndY]"
  by (simp add: end_order_def)

section \<open>Signals outside a press, and the did-slide flag\<close>

lemma idle_empty:
  assumes "\<not> pressed (run en p is init)"
  shows "gesture_current (run en p is init) = empty_gesture"
  using inv_reach[of p en "is"] assms by (simp add: inv_def pressed_def)

lemma state_didSlide_only:
  "gesture_current s = empty_gesture \<Longrightarrow>
   s\<lparr>didSlide_current := isSlide (gesture_current s), gesture_current := empty_gesture\<rparr>
     = s\<lparr>didSlide_current := None\<rparr>"
  by (cases s) (simp add: empty_gesture_def)

section \<open>No handler throws\<close>

lemma onEnd_no_throw:
  assumes "inv p (gesture_current s)"
  shows "snd (snd (onEnd en p e s)) = None"
proof (cases "pressed s")
  case False
  then show ?thesis by (simp add: onEnd_not_pressed)
next
  case True
  with assms obtain t0 where "startT (gesture_current s) = Some t0"
    by (auto simp add: inv_def pressed_def)
  from onEnd_pressed(2)[OF True this] show ?thesis .
qed

lemma onMove_no_throw:
  assumes "inv p (gesture_current s)"
  shows "snd (snd (onMove en p e s)) = None"
proof (cases "pressed s")
  case False
  then show ?thesis by (simp add: onMove_not_pressed)
next
  case True
  show ?thesis
  proof (cases "multitouch e")
    case True
    with \<open>pressed s\<close> onEnd_no_throw[OF assms, of en e] show ?thesis
      by (simp add: onMove_multitouch)
  next
    case False
    let ?g = "gesture_current (fst (onMove en p e s))"
    from assms \<open>pressed s\<close> obtain t0 where t: "startT (gesture_current s) = Some t0"
      by (auto simp add: inv_def pressed_def)
    have t': "startT (gesture_current (s\<lparr>gesture_current := ?g\<rparr>)) = Some t0"
      by (simp add: onMove_single_frame(4)[OF \<open>pressed s\<close> False] t)
    show ?thesis
      using onMove_single_outcome[OF \<open>pressed s\<close> False, of en p]
      by (simp add: handle_err[OF t'] split: if_splits)
  qed
qed

lemma step_no_throw:
  "snd (snd (step en p i (run en p is init))) = None"
proof (cases i)
  case (Start e)
  then show ?thesis by (simp add: startHandler_err)
next
  case (Move e)
  then show ?thesis by (simp add: onMove_no_throw[OF inv_reach])
next
  case (End e)
  then show ?thesis by (simp add: onEnd_no_throw[OF inv_reach])
next
  case (Click e)
  then show ?thesis by (simp add: postGestureClick_def)
qed

section \<open>Concrete events\<close>

lemma mouse_single: "\<not> multitouch (mouse_ev t x y)"
  by (simp add: multitouch_def mouse_ev_def)

section \<open>The axis lock\<close>

text \<open>
  Claim C1. Take a gesture: a start at \<open>e0\<close> followed by single-touch move samples
  \<open>es\<close>. The axis lock it ends with is the verdict of the first sample whose absolute
  displacement on one axis is at least \<open>slideThreshold\<close> and strictly greater than the
  one on the other axis: \<open>isX\<close> and \<open>isY\<close> say which axis that sample favoured, never
  both; with no such sample the gesture is unlocked. Samples with equal absolute
  displacements lock nothing, so the decision falls to the samples after them. Once an
  axis is locked, further samples \<open>es'\<close> change neither \<open>isX\<close> nor \<open>isY\<close>.
\<close>

theorem axis_lock_decided_once:
  assumes "\<forall>e \<in> set es. \<not> multitouch e" and "\<forall>e \<in> set es'. \<not> multitouch e"
  shows
    "(case find (locks en p e0) es of
        None \<Rightarrow> unlocked (gesture_current (run en p (Start e0 # map Move es) s0))
      | Some e \<Rightarrow>
          isX (gesture_current (run en p (Start e0 # map Move es) s0))
            = Some (locksX en p e0 e)
          \<and> isY (gesture_current (run en p (Start e0 # map Move es) s0))
            = Some (locksY en p e0 e)
          \<and> \<not> (locksX en p e0 e \<and> locksY en p e0 e))
     \<and> ((\<forall>e \<in> set es. displacementX en e0 e = displacementY en e0 e) \<longrightarrow>
          unlocked (gesture_current (run en p (Start e0 # map Move es) s0)))
     \<and> (\<not> unlocked (gesture_current (run en p (Start e0 # map Move es) s0)) \<longrightarrow>
          isX (gesture_current (run en p (Start e0 # map Move (es @ es')) s0))
            = isX (gesture_current (run en p (Start e0 # map Move es) s0))
          \<and> isY (gesture_current (run en p (Start e0 # map Move (es @ es')) s0))
            = isY (gesture_current (run en p (Start e0 # map Move es) s0)))"
proof -
  let ?s1 = "fst (startHandler en p e0 s0)"
  let ?s2 = "run en p (map Move es) ?s1"
  have r: "run en p (Start e0 # map Move es) s0 = ?s2" by simp
  have r': "run en p (Start e0 # map Move (es @ es')) s0 = run en p (map Move es') ?s2"
    by (simp add: run_append)
  note st = after_start[of en p e0 s0]
  note first = moves_unlocked[OF st(1) assms(1) st(2,3,4), where p = p]
  have a: "(case find (locks en p e0) es of
        None \<Rightarrow> unlocked (gesture_current ?s2)
      | Some e \<Rightarrow>
          isX (gesture_current ?s2) = Some (locksX en p e0 e)
          \<and> isY (gesture_current ?s2) = Some (locksY en p e0 e)
          \<and> \<not> (locksX en p e0 e \<and> locksY en p e0 e))"
    using first by (auto split: option.splits dest: locksX_not_locksY)
  have b: "unlocked (gesture_current ?s2)"
    if tie: "\<forall>e \<in> set es. displacementX en e0 e = displacementY en e0 e"
  proof -
    from tie have "\<forall>e \<in> set es. \<not> locks en p e0 e"
      by (simp add: locks_def locksX_def locksY_def)
    then have "find (locks en p e0) es = None" by (simp add: find_None_iff)
    with first show ?thesis by simp
  qed
  have c: "isX (gesture_current (run en p (map Move es') ?s2)) = isX (gesture_current ?s2)
      \<and> isY (gesture_current (run en p (map Move es') ?s2)) = isY (gesture_current ?s2)"
    if locked: "\<not> unlocked (gesture_current ?s2)"
  proof -
    have "pressed ?s2" using moves_frame[OF st(1) assms(1), where en = en and p = p]
      by simp
    from moves_locked[OF this assms(2) locked, of en p] show ?thesis by simp
  qed
  show ?thesis
    unfolding r r' using a b c by blast
qed

text \<open>
  A press at the origin with samples at (2,2), (5,5) and (5,9): the first is below the
  threshold, the second a tie at the threshold, the third locks the vertical axis; a
  later sample at (30,9) does not move the lock to the horizontal axis.
\<close>

theorem axis_lock_decided_once_witness:
  "find (locks mouse_env all_props origin) diagonal_then_down = Some (mouse_ev ''mousemove'' 5 9)
   \<and> isX (gesture_current (run mouse_env all_props (Start origin # map Move diagonal_then_down) init))
       = Some False
   \<and> isY (gesture_current (run mouse_env all_props (Start origin # map Move diagonal_then_down) init))
       = Some True
   \<and> unlocked (gesture_current (run mouse_env all_props (Start origin # map Move diagonal) init))
   \<and> isX (gesture_current
         (run mouse_env all_props (Start origin # map Move (diagonal_then_down @ far_right)) init))
       = Some False
   \<and> isY (gesture_current
         (run mouse_env all_props (Start origin # map Move (diagonal_then_down @ far_right)) init))
       = Some True"
proof -
  let ?G = "\<lambda>es. gesture_current (run mouse_env all_props (Start origin # map Move es) init)"
  have h1: "\<forall>e \<in> set diagonal_then_down. \<not> multitouch e"
    by (simp add: diagonal_then_down_def mouse_single)
  have h2: "\<forall>e \<in> set far_right. \<not> multitouch e"
    by (simp add: far_right_def mouse_single)
  have h3: "\<forall>e \<in> set diagonal. \<not> multitouch e"
    by (simp add: diagonal_def mouse_single)
  have f: "find (locks mouse_env all_props origin) diagonal_then_down
             = Some (mouse_ev ''mousemove'' 5 9)"
    by code_simp
  have lx: "locksX mouse_env all_props origin (mouse_ev ''mousemove'' 5 9) = False"
    and ly: "locksY mouse_env all_props origin (mouse_ev ''mousemove'' 5 9) = True"
    by code_simp+
  have tie: "\<forall>e \<in> set diagonal.
      displacementX mouse_env origin e = displacementY mouse_env origin e"
    by (simp add: diagonal_def displacementX_def displacementY_def mouse_env_def mouse_ev_def
          origin_def)
  note w = axis_lock_decided_once[OF h1 h2, of mouse_env all_props origin init]
  note w' = axis_lock_decided_once[OF h3 h2, of mouse_env all_props origin init]
  from conjunct1[OF w] have a: "isX (?G diagonal_then_down) = Some False"
    and b: "isY (?G diagonal_then_down) = Some True"
    unfolding f by (simp_all only: option.case lx ly)
  from mp[OF conjunct1[OF conjunct2[OF w']] tie]
  have c: "unlocked (?G diagonal)" .
  have "\<not> unlocked (?G diagonal_then_down)"
    unfolding unlocked_def truthy_def b by simp
  from mp[OF conjunct2[OF conjunct2[OF w]] this]
  have d: "isX (?G (diagonal_then_down @ far_right)) = Some False"
    and e: "isY (?G (diagonal_then_down @ far_right)) = Some True"
    unfolding a b by simp_all
  from f a b c d e show ?thesis by (intro conjI)
qed

text \<open>
  Claim C7. Take a start at \<open>e0\<close> followed by move samples none of which reaches the
  lock condition. The gesture stays unlocked and no move callback (generic, X or Y) is
  called; when the samples are single-touch nothing at all happens on the outside.
\<close>

theorem no_lock_no_dispatch:
  assumes "\<forall>e \<in> set es. \<not> locks en p e0 e"
  shows "unlocked (gesture_current (run en p (Start e0 # map Move es) s0))
    \<and> set (callbacks (trace en p (map Move es) (fst (startHandler en p e0 s0))))
        \<inter> {OnMove, OnMoveX, OnMoveY} = {}
    \<and> ((\<forall>e \<in> set es. \<not> multitouch e) \<longrightarrow>
         trace en p (map Move es) (fst (startHandler en p e0 s0)) = [])"
proof -
  note st = after_start[of en p e0 s0]
  have "quiet en e0 (fst (startHandler en p e0 s0))"
    by (simp add: quiet_def st)
  from quiet_moves[OF this assms] show ?thesis
    by (simp add: quiet_def)
qed

text \<open>
  A press at the origin with samples at (2,2) and (5,5) locks nothing and has no effect
  on the outside.
\<close>

theorem no_lock_no_dispatch_witness:
  "unlocked (gesture_current (run mouse_env all_props (Start origin # map Move diagonal) init))
   \<and> set (callbacks (trace mouse_env all_props (map Move diagonal)
            (fst (startHandler mouse_env all_props origin init))))
       \<inter> {OnMove, OnMoveX, OnMoveY} = {}
   \<and> trace mouse_env all_props (map Move diagonal)
        (fst (startHandler mouse_env all_props origin init)) = []"
proof -
  have h: "\<forall>e \<in> set diagonal. \<not> locks mouse_env all_props origin e"
    by (simp add: diagonal_def locks_def locksX_def locksY_def displacementX_def
          displacementY_def mouse_env_def mouse_ev_def origin_def all_props_def)
  have s: "\<forall>e \<in> set diagonal. \<not> multitouch e"
    by (simp add: diagonal_def mouse_single)
  note w = no_lock_no_dispatch[OF h, of init]
  from conjunct1[OF w] conjunct1[OF conjunct2[OF w]] mp[OF conjunct2[OF conjunct2[OF w]] s]
  show ?thesis by (intro conjI)
qed

section \<open>Slide flags and the callbacks\<close>

text \<open>
  Claim C6. In every state the component reaches, \<open>isSlideX\<close> is set only if \<open>isX\<close>
  is and the consumer passed \<open>onMoveX\<close> or \<open>onMove\<close>, and likewise for Y. Every call of
  an axis callback of the move or end phase, anywhere in the life of the component,
  carries a record that is slide-flagged (hence locked and listened to) on that axis: an
  axis that is not slide-flagged never has its move or end callback called.
\<close>

theorem slide_flag_needs_listener:
  "(truthy (isSlideX (gesture_current (run en p is init))) \<longrightarrow>
      truthy (isX (gesture_current (run en p is init))) \<and> (onMoveX p \<or> prop_onMove p))
   \<and> (truthy (isSlideY (gesture_current (run en p is init))) \<longrightarrow>
      truthy (isY (gesture_current (run en p is init))) \<and> (onMoveY p \<or> prop_onMove p))
   \<and> (\<forall>c ev. Callback c ev \<in> set (trace en p is init) \<longrightarrow>
        (c = OnMoveX \<or> c = OnEndX \<longrightarrow>
           truthy (isSlideX (snapshot ev)) \<and> truthy (isX (snapshot ev))
           \<and> (onMoveX p \<or> prop_onMove p))
        \<and> (c = OnMoveY \<or> c = OnEndY \<longrightarrow>
           truthy (isSlideY (snapshot ev)) \<and> truthy (isY (snapshot ev))
           \<and> (onMoveY p \<or> prop_onMove p)))"
proof -
  have i0: "inv p (gesture_current init)" by (simp add: init_def inv_empty)
  have a: "inv p (gesture_current (run en p is init))" by (rule inv_reach)
  have b: "gated c ev \<and> inv p (snapshot ev)"
    if "Callback c ev \<in> set (trace en p is init)" for c ev
    using trace_gated[OF i0 that] .
  from a have a1: "truthy (isSlideX (gesture_current (run en p is init))) \<longrightarrow>
      truthy (isX (gesture_current (run en p is init))) \<and> (onMoveX p \<or> prop_onMove p)"
    and a2: "truthy (isSlideY (gesture_current (run en p is init))) \<longrightarrow>
      truthy (isY (gesture_current (run en p is init))) \<and> (onMoveY p \<or> prop_onMove p)"
    by (simp_all add: inv_def)
  have c: "(c = OnMoveX \<or> c = OnEndX \<longrightarrow>
           truthy (isSlideX (snapshot ev)) \<and> truthy (isX (snapshot ev))
           \<and> (onMoveX p \<or> prop_onMove p))
        \<and> (c = OnMoveY \<or> c = OnEndY \<longrightarrow>
           truthy (isSlideY (snapshot ev)) \<and> truthy (isY (snapshot ev))
           \<and> (onMoveY p \<or> prop_onMove p))"
    if "Callback c ev \<in> set (trace en p is init)" for c ev
    using b[OF that] by (auto simp add: gated_def inv_def)
  from a1 a2 c show ?thesis by blast
qed

text \<open>
  A mouse press at the origin and a sample at (10,1), every callback registered: the
  record is slide-flagged and locked on X, and the X move callback was called with such
  a record.
\<close>

theorem slide_flag_needs_listener_witness:
  "truthy (isSlideX (gesture_current (run mouse_env all_props mouse_inputs init)))
   \<and> truthy (isX (gesture_current (run mouse_env all_props mouse_inputs init)))
   \<and> (onMoveX all_props \<or> prop_onMove all_props)
   \<and> Callback OnMoveX first_slide_event \<in> set (trace mouse_env all_props mouse_inputs init)
   \<and> truthy (isSlideX (snapshot first_slide_event))
   \<and> truthy (isX (snapshot first_slide_event))"
proof -
  note w = slide_flag_needs_listener[of mouse_env all_props mouse_inputs]
  have h: "truthy (isSlideX (gesture_current (run mouse_env all_props mouse_inputs init)))"
    by code_simp
  have m: "Callback OnMoveX first_slide_event
             \<in> set (trace mouse_env all_props mouse_inputs init)"
    by code_simp
  note a = mp[OF conjunct1[OF w] h]
  from conjunct2[OF conjunct2[OF w]] m
  have b: "truthy (isSlideX (snapshot first_slide_event))
           \<and> truthy (isX (snapshot first_slide_event))
           \<and> (onMoveX all_props \<or> prop_onMove all_props)"
    by blast
  from h a m b show ?thesis by (intro conjI) simp_all
qed

text \<open>
  Claim C2. For every input event in every state the component reaches, the callbacks
  called are, in this order, the generic one, the one of the X axis, the one of the
  Y axis, each if registered (and, for a move or an end, if its axis is slide-flagged).
  The end handler lists the Y callback before the X callback, but the two slide flags
  are never set together, so at most one of them is called.
\<close>

theorem callbacks_in_fixed_order:
  "(let s = run en p is init;
        s' = fst (step en p i s);
        called = callbacks (fst (snd (step en p i s)))
    in (case i of
          Start e \<Rightarrow> called = filter (registered p) [OnStart, OnStartX, OnStartY]
        | Move e \<Rightarrow>
            called =
              (if pressed s then
                 (if multitouch e then filter (registered p) (end_order (gesture_current s))
                  else if truthy (isSlide (gesture_current s'))
                    then filter (registered p) (move_order (gesture_current s'))
                    else [])
               else [])
        | End e \<Rightarrow>
            called =
              (if pressed s then filter (registered p) (end_order (gesture_current s))
               else [])
        | Click e \<Rightarrow> called = [])
       \<and> (subseq called [OnStart, OnStartX, OnStartY]
          \<or> subseq called [OnMove, OnMoveX, OnMoveY]
          \<or> subseq called [OnEnd, OnEndX, OnEndY]))"
proof -
  note r = inv_reach[of p en "is"]
  show ?thesis
  proof (cases i)
    case (Start e)
    then show ?thesis
      by (simp add: Let_def startHandler_callbacks del: filter.simps)
  next
    case (Move e)
    then show ?thesis
      using subseq_move subseq_end
      by (simp add: Let_def onMove_callbacks_reach[OF r])
  next
    case (End e)
    then show ?thesis
      using subseq_end
      by (simp add: Let_def onEnd_callbacks_reach[OF r])
  next
    case (Click e)
    then show ?thesis
      by (simp add: Let_def postGestureClick_def)
  qed
qed

text \<open>
  With every callback registered, a start calls the three start callbacks in order,
  and the end of a horizontal slide calls the generic end callback, then the one of X.
\<close>

theorem callbacks_in_fixed_order_witness:
  "callbacks (fst (snd (step mouse_env all_props (Start origin) init)))
     = [OnStart, OnStartX, OnStartY]
   \<and> callbacks (fst (snd (step mouse_env all_props (End (mouse_ev ''mouseup'' 10 1))
        (run mouse_env all_props mouse_inputs init))))
     = [OnEnd, OnEndX]"
proof -
  have reg: "filter (registered all_props) [OnStart, OnStartX, OnStartY]
               = [OnStart, OnStartX, OnStartY]"
    by code_simp
  have p: "pressed (run mouse_env all_props mouse_inputs init)"
    by code_simp
  have eo: "filter (registered all_props)
              (end_order (gesture_current (run mouse_env all_props mouse_inputs init)))
            = [OnEnd, OnEndX]"
    by code_simp
  have a0: "callbacks (fst (snd (step mouse_env all_props (Start origin) init)))
     = filter (registered all_props) [OnStart, OnStartX, OnStartY]"
    using callbacks_in_fixed_order[of mouse_env all_props "[]" "Start origin"]
    by (simp add: Let_def del: filter.simps)
  have b0: "callbacks (fst (snd (step mouse_env all_props (End (mouse_ev ''mouseup'' 10 1))
        (run mouse_env all_props mouse_inputs init))))
     = filter (registered all_props)
              (end_order (gesture_current (run mouse_env all_props mouse_inputs init)))"
    using callbacks_in_fixed_order[of mouse_env all_props mouse_inputs
      "End (mouse_ev ''mouseup'' 10 1)"] p
    by (simp add: Let_def del: filter.simps)
  from a0 b0 show ?thesis by (simp only: reg eo simp_thms)
qed

section \<open>The end of a gesture\<close>

text \<open>
  Claim C8. In every state the component reaches with a press active, a move sample
  with more than one touch point does not throw and ends the gesture. The end callbacks
  are called: \<open>onEnd\<close> if the consumer passed it, then \<open>onEndY\<close> if the record is
  slide-flagged on Y and the consumer passed it, then \<open>onEndX\<close> likewise, and nothing
  else. Each call receives the gesture record as it was before the sample (the sample's
  displacements are not stored) and the sample as original event. The gesture record is
  then empty and the did-slide flag is the record's \<open>isSlide\<close>.
\<close>

theorem multitouch_aborts:
  assumes "pressed (run en p is init)" "multitouch e"
  shows "(case onMove en p e (run en p is init) of
           (s', acts, err) \<Rightarrow>
             err = None
             \<and> callbacks acts =
                 (if prop_onEnd p then [OnEnd] else [])
                 @ (if truthy (isSlideY (gesture_current (run en p is init))) \<and> onEndY p
                    then [OnEndY] else [])
                 @ (if truthy (isSlideX (gesture_current (run en p is init))) \<and> onEndX p
                    then [OnEndX] else [])
             \<and> callbacks acts =
                 filter (registered p) (end_callbacks (gesture_current (run en p is init)))
             \<and> length (touch_events acts) = length (callbacks acts)
             \<and> (\<forall>ev \<in> set (touch_events acts).
                   snapshot ev = gesture_current (run en p is init) \<and> originalEvent ev = e)
             \<and> gesture_current s' = empty_gesture
             \<and> didSlide_current s' = isSlide (gesture_current (run en p is init)))"
proof -
  let ?s = "run en p is init"
  from inv_reach[of p en "is"] assms(1) obtain t0 where
    t: "startT (gesture_current ?s) = Some t0"
    by (auto simp add: inv_def pressed_def)
  have ev: "snapshot ev = gesture_current ?s \<and> originalEvent ev = e"
    if "ev \<in> set (touch_events (fst (snd (onEnd en p e ?s))))" for ev
    using onEnd_events[OF assms(1) t that] .
  have cb: "callbacks (fst (snd (onEnd en p e ?s))) =
      filter (registered p) (end_callbacks (gesture_current ?s))"
    by (simp add: onEnd_pressed(3)[OF assms(1) t] somes_end)
  have ex: "filter (registered p) (end_callbacks (gesture_current ?s)) =
      (if prop_onEnd p then [OnEnd] else [])
      @ (if truthy (isSlideY (gesture_current ?s)) \<and> onEndY p then [OnEndY] else [])
      @ (if truthy (isSlideX (gesture_current ?s)) \<and> onEndX p then [OnEndX] else [])"
    by (simp add: end_callbacks_def registered_def)
  have len: "length (touch_events (fst (snd (onEnd en p e ?s))))
      = length (callbacks (fst (snd (onEnd en p e ?s))))"
    by (rule touch_events_length)
  show ?thesis
    using ev cb len
    by (simp add: onMove_multitouch[OF assms] split_beta onEnd_pressed(1,2)[OF assms(1) t]
          ex[symmetric])
qed

text \<open>
  A horizontal swipe on a touch screen, then a sample with a second finger at (40,40).
  For the consumer that passes every callback, \<open>onEnd\<close> and \<open>onEndX\<close> are called; for
  the one that passes \<open>onEnd\<close> but not \<open>onEndX\<close>, \<open>onEnd\<close> alone. The record they receive
  has the shifts (10,1) of the sample before.
\<close>

theorem multitouch_aborts_witness:
  "pressed (run touch_env all_props touch_inputs init)
   \<and> pressed (run touch_env few_props touch_inputs init)
   \<and> multitouch second_finger
   \<and> shifts (gesture_current (run touch_env all_props touch_inputs init))
       = (Some 10, Some 1, Some 10, Some 1)
   \<and> callbacks (fst (snd (onMove touch_env all_props second_finger
        (run touch_env all_props touch_inputs init)))) = [OnEnd, OnEndX]
   \<and> callbacks (fst (snd (onMove touch_env few_props second_finger
        (run touch_env few_props touch_inputs init)))) = [OnEnd]
   \<and> length (touch_events (fst (snd (onMove touch_env all_props second_finger
        (run touch_env all_props touch_inputs init))))) = 2
   \<and> gesture_current (fst (onMove touch_env all_props second_finger
        (run touch_env all_props touch_inputs init))) = empty_gesture
   \<and> didSlide_current (fst (onMove touch_env all_props second_finger
        (run touch_env all_props touch_inputs init))) = Some True"
proof -
  let ?s = "run touch_env all_props touch_inputs init"
  let ?s' = "run touch_env few_props touch_inputs init"
  have p: "pressed ?s" and p': "pressed ?s'"
    by code_simp+
  have m: "multitouch second_finger"
    by code_simp
  have sh: "shifts (gesture_current ?s) = (Some 10, Some 1, Some 10, Some 1)"
    by code_simp
  have fl: "truthy (isSlideX (gesture_current ?s))" "\<not> truthy (isSlideY (gesture_current ?s))"
    "truthy (isSlideX (gesture_current ?s'))" "\<not> truthy (isSlideY (gesture_current ?s'))"
    "isSlide (gesture_current ?s) = Some True"
    by code_simp+
  have pr: "prop_onEnd all_props" "onEndX all_props" "prop_onEnd few_props"
    "\<not> onEndX few_props"
    by (simp_all add: all_props_def few_props_def)
  note w = multitouch_aborts[OF p m]
  note w' = multitouch_aborts[OF p' m]
  from w have a: "callbacks (fst (snd (onMove touch_env all_props second_finger ?s)))
      = [OnEnd, OnEndX]"
    and l: "length (touch_events (fst (snd (onMove touch_env all_props second_finger ?s))))
      = 2"
    and g: "gesture_current (fst (onMove touch_env all_props second_finger ?s))
      = empty_gesture"
    and d: "didSlide_current (fst (onMove touch_env all_props second_finger ?s)) = Some True"
    by (simp_all add: split_beta fl pr)
  from w' have b: "callbacks (fst (snd (onMove touch_env few_props second_finger ?s')))
      = [OnEnd]"
    by (simp add: split_beta fl pr)
  from p p' m sh a b l g d show ?thesis by (intro conjI)
qed

text \<open>
  Claim C10. Take a start at \<open>e0\<close>, single-touch move samples \<open>es\<close> and an end event
  \<open>e1\<close>. The end handler does not throw and calls the end callbacks with the stored
  gesture record, whatever the coordinates of \<open>e1\<close> are: its four shift fields are the
  displacement of the last move sample from the start when a sample of \<open>es\<close> locked an
  axis the consumer listens to (every sample from that one on is slide-flagged and
  stores its shifts), and are undefined otherwise.
\<close>

theorem end_delivers_stored_shifts:
  assumes "\<forall>e \<in> set es. \<not> multitouch e"
  shows "(case onEnd en p e1 (run en p (Start e0 # map Move es) s0) of
           (s', acts, err) \<Rightarrow>
             err = None
             \<and> callbacks acts =
                 filter (registered p)
                   (end_callbacks (gesture_current (run en p (Start e0 # map Move es) s0)))
             \<and> (\<forall>ev \<in> set (touch_events acts).
                   snapshot ev = gesture_current (run en p (Start e0 # map Move es) s0)
                   \<and> shifts (snapshot ev) =
                       (case find (locks en p e0) es of
                          None \<Rightarrow> (None, None, None, None)
                        | Some e \<Rightarrow>
                            if slides en p e0 e then shifts_at en e0 (last es)
                            else (None, None, None, None))))"
proof -
  let ?s1 = "fst (startHandler en p e0 s0)"
  let ?s2 = "run en p (map Move es) ?s1"
  have r: "run en p (Start e0 # map Move es) s0 = ?s2" by simp
  note st = after_start[of en p e0 s0]
  from moves_frame[OF st(1) assms, where en = en and p = p]
  have pr: "pressed ?s2" and t: "startT (gesture_current ?s2) = Some (clock en (ticks s0))"
    by (simp_all add: st)
  have sh: "shifts (gesture_current ?s2) =
      (case find (locks en p e0) es of
         None \<Rightarrow> (None, None, None, None)
       | Some e \<Rightarrow> if slides en p e0 e then shifts_at en e0 (last es)
                   else (None, None, None, None))"
    using moves_unlocked_shifts[OF st(1) assms st(2,3,4), where p = p]
    by (simp add: st(7) split: option.splits)
  have ev: "snapshot ev = gesture_current ?s2"
    if "ev \<in> set (touch_events (fst (snd (onEnd en p e1 ?s2))))" for ev
    using onEnd_events[OF pr t that] by simp
  show ?thesis
    unfolding r using ev sh
    by (simp add: split_beta onEnd_pressed(2,3)[OF pr t] somes_end)
qed

text \<open>
  A swipe to the right with samples at (10,1) and (20,3), released at (25,4): the end
  callbacks receive the shifts (20,3) of the last sample.
\<close>

theorem end_delivers_stored_shifts_witness:
  "find (locks mouse_env all_props origin) swipe_right = Some (mouse_ev ''mousemove'' 10 1)
   \<and> slides mouse_env all_props origin (mouse_ev ''mousemove'' 10 1)
   \<and> shifts_at mouse_env origin (last swipe_right) = (Some 20, Some 3, Some 20, Some 3)
   \<and> (case onEnd mouse_env all_props (mouse_ev ''mouseup'' 25 4)
              (run mouse_env all_props (Start origin # map Move swipe_right) init) of
         (s', acts, err) \<Rightarrow>
           err = None
           \<and> callbacks acts =
               filter (registered all_props)
                 (end_callbacks (gesture_current
                    (run mouse_env all_props (Start origin # map Move swipe_right) init)))
           \<and> (\<forall>ev \<in> set (touch_events acts).
                 snapshot ev = gesture_current
                    (run mouse_env all_props (Start origin # map Move swipe_right) init)
                 \<and> shifts (snapshot ev) =
                     (case find (locks mouse_env all_props origin) swipe_right of
                        None \<Rightarrow> (None, None, None, None)
                      | Some e \<Rightarrow>
                          if slides mouse_env all_props origin e
                          then shifts_at mouse_env origin (last swipe_right)
                          else (None, None, None, None))))"
proof -
  have h: "\<forall>e \<in> set swipe_right. \<not> multitouch e"
    by (simp add: swipe_right_def mouse_single)
  have f: "find (locks mouse_env all_props origin) swipe_right
             = Some (mouse_ev ''mousemove'' 10 1)"
    by code_simp
  have sl: "slides mouse_env all_props origin (mouse_ev ''mousemove'' 10 1)"
    by code_simp
  have sh: "shifts_at mouse_env origin (last swipe_right) = (Some 20, Some 3, Some 20, Some 3)"
    by code_simp
  note w = end_delivers_stored_shifts[OF h, where en = mouse_env and p = all_props
      and ?e1.0 = "mouse_ev ''mouseup'' 25 4" and ?e0.0 = origin and ?s0.0 = init]
  show ?thesis
    by (rule conjI[OF f conjI[OF sl conjI[OF sh w]]])
qed

section \<open>A start during a press\<close>

text \<open>
  Claim C9. A start signal that arrives while a gesture is pressed does not throw; it
  overwrites the gesture record with the fresh start record of the new gesture and
  calls the start callbacks: \<open>onStart\<close>, then \<open>onStartX\<close>, then \<open>onStartY\<close>, each if the
  consumer passed it, and nothing else, each with that fresh record and the start
  event. It calls no end callback and leaves the did-slide flag as it was.
\<close>

theorem start_while_pressed_discards:
  assumes "pressed s"
  shows "(case startHandler en p e s of
           (s', acts, err) \<Rightarrow>
             err = None
             \<and> gesture_current s' = fresh en e s
             \<and> didSlide_current s' = didSlide_current s
             \<and> callbacks acts =
                 (if onStart p then [OnStart] else [])
                 @ (if onStartX p then [OnStartX] else [])
                 @ (if onStartY p then [OnStartY] else [])
             \<and> callbacks acts = filter (registered p) [OnStart, OnStartX, OnStartY]
             \<and> length (touch_events acts) = length (callbacks acts)
             \<and> (\<forall>ev \<in> set (touch_events acts).
                   snapshot ev = fresh en e s \<and> originalEvent ev = e)
             \<and> set (callbacks acts) \<inter> {OnEnd, OnEndX, OnEndY} = {})"
proof -
  have cb: "callbacks (fst (snd (startHandler en p e s))) =
      filter (registered p) [OnStart, OnStartX, OnStartY]"
    by (rule startHandler_callbacks)
  have ex: "filter (registered p) [OnStart, OnStartX, OnStartY] =
      (if onStart p then [OnStart] else [])
      @ (if onStartX p then [OnStartX] else [])
      @ (if onStartY p then [OnStartY] else [])"
    by (simp add: registered_def)
  have "set (filter (registered p) [OnStart, OnStartX, OnStartY])
          \<inter> {OnEnd, OnEndX, OnEndY} = {}"
    by auto
  with cb have no_end:
    "set (callbacks (fst (snd (startHandler en p e s)))) \<inter> {OnEnd, OnEndX, OnEndY} = {}"
    by simp
  have len: "length (touch_events (fst (snd (startHandler en p e s))))
      = length (callbacks (fst (snd (startHandler en p e s))))"
    by (rule touch_events_length)
  show ?thesis
    using cb no_end len startHandler_events[of _ en p e s]
    by (simp add: split_beta startHandler_err startHandler_fst ex[symmetric]
          del: filter.simps)
qed

text \<open>
  A second mouse down at (3,4) while a horizontal slide is in flight. For the consumer
  that passes every callback the three start callbacks are called in order; for the one
  that passes \<open>onStartX\<close> only, that one alone. The flag and the fresh record are as
  stated.
\<close>

theorem start_while_pressed_discards_witness:
  "pressed sliding
   \<and> callbacks (fst (snd (startHandler mouse_env all_props (mouse_ev ''mousedown'' 3 4) sliding)))
       = [OnStart, OnStartX, OnStartY]
   \<and> callbacks (fst (snd (startHandler mouse_env few_props (mouse_ev ''mousedown'' 3 4) sliding)))
       = [OnStartX]
   \<and> length (touch_events
        (fst (snd (startHandler mouse_env all_props (mouse_ev ''mousedown'' 3 4) sliding)))) = 3
   \<and> gesture_current (fst (startHandler mouse_env all_props (mouse_ev ''mousedown'' 3 4) sliding))
       = fresh mouse_env (mouse_ev ''mousedown'' 3 4) sliding
   \<and> didSlide_current (fst (startHandler mouse_env all_props (mouse_ev ''mousedown'' 3 4) sliding))
       = didSlide_current sliding"
proof -
  have p: "pressed sliding" by code_simp
  have pr: "onStart all_props" "onStartX all_props" "onStartY all_props"
    "\<not> onStart few_props" "onStartX few_props" "\<not> onStartY few_props"
    by (simp_all add: all_props_def few_props_def)
  note w = start_while_pressed_discards[OF p, where en = mouse_env and p = all_props
      and e = "mouse_ev ''mousedown'' 3 4"]
  note w' = start_while_pressed_discards[OF p, where en = mouse_env and p = few_props
      and e = "mouse_ev ''mousedown'' 3 4"]
  from w have a: "callbacks (fst (snd (startHandler mouse_env all_props
        (mouse_ev ''mousedown'' 3 4) sliding))) = [OnStart, OnStartX, OnStartY]"
    and l: "length (touch_events (fst (snd (startHandler mouse_env all_props
        (mouse_ev ''mousedown'' 3 4) sliding)))) = 3"
    and g: "gesture_current (fst (startHandler mouse_env all_props
        (mouse_ev ''mousedown'' 3 4) sliding))
       = fresh mouse_env (mouse_ev ''mousedown'' 3 4) sliding"
    and d: "didSlide_current (fst (startHandler mouse_env all_props
        (mouse_ev ''mousedown'' 3 4) sliding)) = didSlide_current sliding"
    by (simp_all add: split_beta pr)
  from w' have b: "callbacks (fst (snd (startHandler mouse_env few_props
        (mouse_ev ''mousedown'' 3 4) sliding))) = [OnStartX]"
    by (simp add: split_beta pr)
  from p a b l g d show ?thesis by (intro conjI)
qed

section \<open>Signals outside a press\<close>

text \<open>
  Claim C3, as the code has it. In every state the component reaches with no press
  active, a move signal is a no-op: no effect, the state unchanged. Where touch is
  enabled (the move and end listeners stay bound to the element), an end or cancel
  signal in such a state calls no gesture callback and leaves the gesture record
  (empty) and the clock reads as they are, but it is not a no-op: it resets the
  did-slide flag to undefined and calls \<open>onLeave\<close> for a \<open>touchend\<close> or \<open>touchcancel\<close>
  event.
\<close>

theorem idle_move_is_noop_idle_end_is_not:
  assumes "\<not> pressed (run en p is init)"
  shows "onMove en p e (run en p is init) = (run en p is init, [], None)
    \<and> (touchEnabled en \<longrightarrow>
         onEnd en p e (run en p is init) =
           ((run en p is init)\<lparr>didSlide_current := None\<rparr>,
            (if etype e = ''touchend'' \<or> etype e = ''touchcancel''
             then (if onLeave p then [Leave e] else []) else []),
            None))"
  using assms
  by (simp add: onMove_not_pressed onEnd_not_pressed
        state_didSlide_only[OF idle_empty[OF assms]])

text \<open>
  The finger lifted after a swipe that a second finger aborted.
\<close>

theorem idle_end_witness:
  "\<not> pressed aborted
   \<and> touchEnabled touch_env
   \<and> onMove touch_env all_props lifted aborted = (aborted, [], None)
   \<and> onEnd touch_env all_props lifted aborted =
       (aborted\<lparr>didSlide_current := None\<rparr>,
        (if etype lifted = ''touchend'' \<or> etype lifted = ''touchcancel''
         then (if onLeave all_props then [Leave lifted] else []) else []),
        None)"
proof -
  have a: "aborted = run touch_env all_props (touch_inputs @ [Move second_finger]) init"
    by (simp add: aborted_def touch_inputs_def second_finger_def)
  have p: "\<not> pressed (run touch_env all_props (touch_inputs @ [Move second_finger]) init)"
    by code_simp
  have te: "touchEnabled touch_env"
    by (simp add: touch_env_def)
  note w = idle_move_is_noop_idle_end_is_not[OF p, of lifted]
  show ?thesis
    unfolding a
    by (rule conjI[OF p conjI[OF te conjI[OF conjunct1[OF w] mp[OF conjunct2[OF w] te]]]])
qed

text \<open>
  In that state no press is active and the did-slide flag is set; the \<open>touchend\<close>
  clears the flag and calls \<open>onLeave\<close>, so the end handler is not a no-op there.
\<close>

theorem idle_end_is_not_a_noop:
  "\<not> pressed aborted
   \<and> didSlide_current aborted = Some True
   \<and> didSlide_current (fst (onEnd touch_env all_props lifted aborted)) = None
   \<and> fst (snd (onEnd touch_env all_props lifted aborted)) = [Leave lifted]
   \<and> onEnd touch_env all_props lifted aborted \<noteq> (aborted, [], None)"
  by code_simp

section \<open>The did-slide flag\<close>

text \<open>
  Claim C4, as the code has it. In every state the component reaches: a start leaves the
  did-slide flag as it is; so does a move sample, unless it is a multi-touch sample during
  a press, which runs the end handler; every end or cancel signal sets the flag to the
  \<open>isSlide\<close> of the gesture record it ends; a click clears the flag if it is set and
  leaves it otherwise. So after a slide-flagged gesture has ended the flag stays set
  until the next click or the next run of the end handler, whichever comes first.
\<close>

theorem did_slide_written_by_end_and_click:
  "(let s = run en p is init;
        s' = fst (step en p i s)
    in case i of
         Start e \<Rightarrow> didSlide_current s' = didSlide_current s
       | Move e \<Rightarrow>
           didSlide_current s' =
             (if pressed s \<and> multitouch e then isSlide (gesture_current s)
              else didSlide_current s)
       | End e \<Rightarrow> didSlide_current s' = isSlide (gesture_current s)
       | Click e \<Rightarrow>
           didSlide_current s' =
             (if truthy (didSlide_current s) then Some False else didSlide_current s))"
proof -
  let ?s = "run en p is init"
  note r = inv_reach[of p en "is"]
  have e: "didSlide_current (fst (onEnd en p e ?s)) = isSlide (gesture_current ?s)" for e
  proof (cases "pressed ?s")
    case False
    then show ?thesis by (simp add: onEnd_not_pressed)
  next
    case True
    with r obtain t0 where t: "startT (gesture_current ?s) = Some t0"
      by (auto simp add: inv_def pressed_def)
    from onEnd_pressed(1)[OF True t] show ?thesis by simp
  qed
  show ?thesis
  proof (cases i)
    case (Start e)
    then show ?thesis by (simp add: Let_def startHandler_fst)
  next
    case (Move e')
    then show ?thesis using e[of e']
      by (auto simp add: Let_def onMove_didSlide onMove_multitouch)
  next
    case (End e')
    then show ?thesis using e[of e'] by (simp add: Let_def)
  next
    case (Click e)
    then show ?thesis by (simp add: Let_def postGestureClick_def)
  qed
qed

text \<open>
  A swipe on a touch screen sets the flag; a tap that follows it (a start and an end,
  no click between the two gestures) leaves the flag undefined: the end of the tap has
  cleared it.
\<close>

theorem did_slide_cleared_without_click:
  "truthy (didSlide_current swiped)
   \<and> didSlide_current (run touch_env all_props tap swiped) = None
   \<and> \<not> truthy (didSlide_current (run touch_env all_props tap swiped))"
  by code_simp

section \<open>The click gate\<close>

text \<open>
  Claim C5. A click that finds the did-slide flag unset is forwarded to the consumer as
  it is and leaves the state as it is. A click that finds the flag set prevents the
  default exactly when its target is inside a link, stops the propagation exactly when
  \<open>noSlideClick\<close> is set and is forwarded (after the default was prevented) exactly when
  \<open>noSlideClick\<close> is not set; nothing else happens, the flag, and only the flag, is
  cleared, and the next click finds it unset.
\<close>

theorem click_gate:
  "(\<not> truthy (didSlide_current s) \<longrightarrow>
      postGestureClick p e s = (s, (if onClickCapture p then [ClickCapture e] else []), None))
   \<and> (truthy (didSlide_current s) \<longrightarrow>
      (case postGestureClick p e s of
         (s', acts, err) \<Rightarrow>
           err = None
           \<and> (PreventDefault \<in> set acts \<longleftrightarrow> closest_a e)
           \<and> (StopPropagation \<in> set acts \<longleftrightarrow> noSlideClick p)
           \<and> (ClickCapture e \<in> set acts \<longleftrightarrow> \<not> noSlideClick p \<and> onClickCapture p)
           \<and> subseq acts [PreventDefault, StopPropagation, ClickCapture e]
           \<and> s' = s\<lparr>didSlide_current := Some False\<rparr>
           \<and> postGestureClick p e s' =
               (s', (if onClickCapture p then [ClickCapture e] else []), None)))"
  by (simp add: postGestureClick_def truthy_def)

text \<open>
  A click on a link in the initial state, and the same click after a mouse slide, with
  \<open>noSlideClick\<close> set.
\<close>

theorem click_gate_witness:
  "\<not> truthy (didSlide_current init)
   \<and> postGestureClick all_props link_click init =
       (init, (if onClickCapture all_props then [ClickCapture link_click] else []), None)
   \<and> truthy (didSlide_current slid)
   \<and> (case postGestureClick all_props link_click slid of
         (s', acts, err) \<Rightarrow>
           err = None
           \<and> (PreventDefault \<in> set acts \<longleftrightarrow> closest_a link_click)
           \<and> (StopPropagation \<in> set acts \<longleftrightarrow> noSlideClick all_props)
           \<and> (ClickCapture link_click \<in> set acts
                \<longleftrightarrow> \<not> noSlideClick all_props \<and> onClickCapture all_props)
           \<and> subseq acts [PreventDefault, StopPropagation, ClickCapture link_click]
           \<and> s' = slid\<lparr>didSlide_current := Some False\<rparr>
           \<and> postGestureClick all_props link_click s' =
               (s', (if onClickCapture all_props then [ClickCapture link_click] else []),
                None))"
proof -
  have unset: "\<not> truthy (didSlide_current init)"
    by (simp add: init_def truthy_def)
  have set: "truthy (didSlide_current slid)"
    by code_simp
  note fwd = mp[OF conjunct1[OF click_gate[of init all_props link_click]] unset]
  note gate = mp[OF conjunct2[OF click_gate[of slid all_props link_click]] set]
  show ?thesis
    by (rule conjI[OF unset conjI[OF fwd conjI[OF set gate]]])
qed

end
